theory Spec2Isabelle
  imports Complex_Main "HOL-Library.AList" "HOL-Library.Word"
begin

section \<open>Python values, dictionaries and exceptions\<close>

text \<open>
  The tracker in \<^verbatim>\<open>Game.py\<close> builds InfluxDB points: Python dictionaries whose values are
  numbers, strings, byte strings, ctypes arrays, nested structures (\<open>VObj\<close>, never looked
  into) and \<^verbatim>\<open>None\<close>. A dictionary is an
  association list, so that insertion order and key removal are the ones of a Python
  \<^verbatim>\<open>dict\<close>: \<^verbatim>\<open>d[k] = v\<close> replaces in place or appends, \<^verbatim>\<open>del d[k]\<close> raises
  \<^verbatim>\<open>KeyError\<close> on a missing key.
\<close>

type_synonym bytes = string

datatype val =
    VInt int
  | VFloat rat
  | VStr string
  | VBytes bytes
  | VArr "val list"
  | VObj
  | VNone

type_synonym dict = "(string \<times> val) list"

datatype error =
    IndexError
  | KeyError
  | TypeError
  | AttributeError
  | UnicodeDecodeError

definition and_then :: "error + 'a \<Rightarrow> ('a \<Rightarrow> error + 'b) \<Rightarrow> error + 'b" where
  "and_then m f = (case m of Inl e \<Rightarrow> Inl e | Inr x \<Rightarrow> f x)"

definition setitem :: "string \<Rightarrow> val \<Rightarrow> dict \<Rightarrow> dict" where
  "setitem k v d = AList.update k v d"

definition getitem :: "dict \<Rightarrow> string \<Rightarrow> error + val" where
  "getitem d k = (case map_of d k of None \<Rightarrow> Inl KeyError | Some v \<Rightarrow> Inr v)"

definition delitem :: "string \<Rightarrow> dict \<Rightarrow> error + dict" where
  "delitem k d = (if k \<in> fst ` set d then Inr (AList.delete k d) else Inl KeyError)"

text \<open>\<^verbatim>\<open>xs[i]\<close> on a ctypes array or a list, for the non-negative indices the code uses.\<close>

definition idx :: "'a list \<Rightarrow> nat \<Rightarrow> error + 'a" where
  "idx xs i = (if i < length xs then Inr (xs ! i) else Inl IndexError)"

text \<open>\<^verbatim>\<open>v[i]\<close> on a dictionary value: only an array can be subscripted.\<close>

definition subscript :: "val \<Rightarrow> nat \<Rightarrow> error + val" where
  "subscript v i = (case v of VArr xs \<Rightarrow> idx xs i | _ \<Rightarrow> Inl TypeError)"

subsection \<open>Byte strings and \<^verbatim>\<open>bytes.decode("utf-8")\<close>\<close>

text \<open>
  A \<^typ>\<open>char\<close> is a byte. A decoded \<^verbatim>\<open>str\<close> is kept as its UTF-8 bytes, so decoding
  only checks that the bytes are well-formed UTF-8 and raises \<^verbatim>\<open>UnicodeDecodeError\<close>
  otherwise.
\<close>

definition cont :: "nat \<Rightarrow> bool" where
  "cont b = (128 \<le> b \<and> b \<le> 191)"

fun utf8_ok :: "nat list \<Rightarrow> bool" where
  "utf8_ok [] = True"
| "utf8_ok (b # bs) =
     (if b < 128 then utf8_ok bs
      else if 194 \<le> b \<and> b \<le> 223 then
        (case bs of c1 # r \<Rightarrow> cont c1 \<and> utf8_ok r | _ \<Rightarrow> False)
      else if 224 \<le> b \<and> b \<le> 239 then
        (case bs of c1 # c2 # r \<Rightarrow>
           cont c1 \<and> cont c2 \<and> (b = 224 \<longrightarrow> 160 \<le> c1) \<and> (b = 237 \<longrightarrow> c1 \<le> 159) \<and> utf8_ok r
         | _ \<Rightarrow> False)
      else if 240 \<le> b \<and> b \<le> 244 then
        (case bs of c1 # c2 # c3 # r \<Rightarrow>
           cont c1 \<and> cont c2 \<and> cont c3 \<and> (b = 240 \<longrightarrow> 144 \<le> c1) \<and> (b = 244 \<longrightarrow> c1 \<le> 143)
           \<and> utf8_ok r
         | _ \<Rightarrow> False)
      else False)"

definition decode :: "bytes \<Rightarrow> error + string" where
  "decode bs = (if utf8_ok (map of_char bs) then Inr bs else Inl UnicodeDecodeError)"

subsection \<open>\<^verbatim>\<open>str(int)\<close>, \<^verbatim>\<open>datetime\<close> and \<^verbatim>\<open>strftime\<close>\<close>

definition digit :: "nat \<Rightarrow> char" where
  "digit n = ''0123456789'' ! (n mod 10)"

fun str_nat :: "nat \<Rightarrow> string" where
  "str_nat n = (if n < 10 then [digit n] else str_nat (n div 10) @ [digit n])"

declare str_nat.simps [simp del]

definition pad2 :: "nat \<Rightarrow> string" where
  "pad2 n = [digit (n div 10), digit n]"

definition pad4 :: "nat \<Rightarrow> string" where
  "pad4 n = [digit (n div 1000), digit (n div 100), digit (n div 10), digit n]"

text \<open>
  A \<^verbatim>\<open>datetime.datetime\<close> is its calendar fields. Subtracting two of them gives a
  \<^verbatim>\<open>timedelta\<close>, here a number of microseconds, computed through the proleptic Gregorian
  ordinal of the day as the standard library does.
\<close>

record datetime =
  year :: nat
  month :: nat
  day :: nat
  hour :: nat
  minute :: nat
  second :: nat
  microsecond :: nat

definition is_leap :: "nat \<Rightarrow> bool" where
  "is_leap y = (y mod 4 = 0 \<and> (y mod 100 \<noteq> 0 \<or> y mod 400 = 0))"

definition days_before_year :: "nat \<Rightarrow> int" where
  "days_before_year y =
     (let z = int y - 1 in z * 365 + z div 4 - z div 100 + z div 400)"

definition days_before_month :: "nat \<Rightarrow> nat \<Rightarrow> int" where
  "days_before_month y m =
     int ([0, 0, 31, 59, 90, 120, 151, 181, 212, 243, 273, 304, 334] ! (m mod 13))
     + (if 2 < m \<and> is_leap y then 1 else 0)"

definition toordinal :: "datetime \<Rightarrow> int" where
  "toordinal t = days_before_year (year t) + days_before_month (year t) (month t) + int (day t)"

definition to_microseconds :: "datetime \<Rightarrow> int" where
  "to_microseconds t =
     (((toordinal t * 24 + int (hour t)) * 60 + int (minute t)) * 60 + int (second t)) * 1000000
     + int (microsecond t)"

type_synonym timedelta = int

definition datetime_sub :: "datetime \<Rightarrow> datetime \<Rightarrow> timedelta" where
  "datetime_sub a b = to_microseconds a - to_microseconds b"

text \<open>\<^verbatim>\<open>time.strftime('%Y%m%d_%H%M')\<close> and \<^verbatim>\<open>time.strftime('%Y-%m-%dT%H:%M:%SZ')\<close>.\<close>

definition strftime_minute :: "datetime \<Rightarrow> string" where
  "strftime_minute t =
     pad4 (year t) @ pad2 (month t) @ pad2 (day t) @ ''_'' @ pad2 (hour t) @ pad2 (minute t)"

definition strftime_iso :: "datetime \<Rightarrow> string" where
  "strftime_iso t =
     pad4 (year t) @ ''-'' @ pad2 (month t) @ ''-'' @ pad2 (day t) @ ''T''
     @ pad2 (hour t) @ '':'' @ pad2 (minute t) @ '':'' @ pad2 (second t) @ ''Z''"

section \<open>The packets of the telemetry library, as the tracker reads them\<close>

text \<open>
  Every structure of the packet library offers \<^verbatim>\<open>.fields\<close> (here \<open>fields_dict\<close>), a
  dictionary from field name to value; the tracker also reads some attributes directly. A structure is a record that
  extends \<open>Struct\<close>; per-car payloads are lists (ctypes arrays raise \<^verbatim>\<open>IndexError\<close> past
  their end).
\<close>

record Struct =
  fields_dict :: dict

record PacketHeader =
  packetFormat :: nat
  packetVersion :: nat
  packetId :: nat
  sessionUID :: "64 word"
  sessionTime :: rat

record Packet = Struct +
  header :: PacketHeader

record PacketMotionData = Packet +
  carMotionData :: "Struct list"
  suspensionPosition :: "val list"
  suspensionVelocity :: "val list"
  suspensionAcceleration :: "val list"
  wheelSpeed :: "val list"
  wheelSlip :: "val list"
  localVelocityX :: val
  localVelocityY :: val
  localVelocityZ :: val
  angularVelocityX :: val
  angularVelocityY :: val
  angularVelocityZ :: val
  angularAccelerationX :: val
  angularAccelerationY :: val
  angularAccelerationZ :: val
  frontWheelsAngle :: val

record PacketSessionData = Packet +
  marshalZones :: "Struct list"
  trackId :: int
  m_formula :: nat

record PacketLapData = Packet +
  lapData :: "Struct list"

type_synonym PacketEventData = Packet

record ParticipantData = Struct +
  name :: bytes

record PacketParticipantsData = Packet +
  numActiveCars :: nat
  participants :: "ParticipantData list"

record PacketCarSetupData = Packet +
  carSetups :: "Struct list"

record CarTelemetryData = Struct +
  brakesTemperature :: "val list"
  tyresSurfaceTemperature :: "val list"
  tyresInnerTemperature :: "val list"
  tyresPressure :: "val list"
  surfaceType :: "val list"

record PacketCarTelemetryData = Packet +
  carTelemetryData :: "CarTelemetryData list"

record PacketCarStatusData = Packet +
  carStatusData :: "Struct list"

text \<open>One InfluxDB point, the dictionary literal every method appends to \<^verbatim>\<open>json\<close>.\<close>

record point =
  measurement :: string
  tags :: dict
  time :: string
  point_fields :: dict

section \<open>The session state tracker (\<^verbatim>\<open>Game.py\<close>)\<close>

record Game =
  drivers :: "string list"
  sessionID :: "string option"
  sessionIDBrut :: "64 word option"
  init :: bool

definition Game_init :: Game where
  "Game_init = \<lparr>drivers = [], sessionID = None, sessionIDBrut = None, init = False\<rparr>"

definition IsInitialized :: "Game \<Rightarrow> Game \<times> bool" where
  "IsInitialized g =
     (let g' = (if \<not> init g then g\<lparr>init := (0 < length (drivers g) \<and> sessionID g \<noteq> None)\<rparr>
                else g)
      in (g', init g'))"

text \<open>The value stored under \<^verbatim>\<open>"sessionId"\<close>: the identity string, or Python's \<^verbatim>\<open>None\<close>.\<close>

definition sid_val :: "Game \<Rightarrow> val" where
  "sid_val g = (case sessionID g of None \<Rightarrow> VNone | Some s \<Rightarrow> VStr s)"

text \<open>
  The tag dictionary the per-driver loops build afresh in every iteration:
  \<^verbatim>\<open>sessionId\<close>, \<^verbatim>\<open>sessionTime\<close>, \<^verbatim>\<open>packetId\<close>, \<^verbatim>\<open>driver\<close>.
\<close>

definition base_tags :: "Game \<Rightarrow> PacketHeader \<Rightarrow> dict" where
  "base_tags g h =
     setitem ''packetId'' (VInt (int (packetId h)))
       (setitem ''sessionTime'' (VFloat (sessionTime h))
         (setitem ''sessionId'' (sid_val g) []))"

definition driver_tags :: "Game \<Rightarrow> PacketHeader \<Rightarrow> string \<Rightarrow> dict" where
  "driver_tags g h driver = setitem ''driver'' (VStr driver) (base_tags g h)"

text \<open>
  \<^verbatim>\<open>i = 0; for driver in self.drivers: ...; i = i + 1\<close>: the body gets the counter and the
  driver and yields the point it appends, or raises.
\<close>

fun for_drivers :: "(nat \<Rightarrow> string \<Rightarrow> error + point) \<Rightarrow> nat \<Rightarrow> string list \<Rightarrow> error + point list" where
  "for_drivers body i [] = Inr []"
| "for_drivers body i (driver # rest) =
     and_then (body i driver) (\<lambda>p.
     and_then (for_drivers body (Suc i) rest) (\<lambda>ps. Inr (p # ps)))"

text \<open>Reads \<^verbatim>\<open>a[0], a[1], a[2], a[3]\<close> in turn.\<close>

definition idx4 :: "val list \<Rightarrow> error + (val \<times> val \<times> val \<times> val)" where
  "idx4 a =
     and_then (idx a 0) (\<lambda>v0. and_then (idx a 1) (\<lambda>v1.
     and_then (idx a 2) (\<lambda>v2. and_then (idx a 3) (\<lambda>v3. Inr (v0, v1, v2, v3)))))"

text \<open>Stores the four values under \<^verbatim>\<open>q_RL, q_RR, q_FL, q_FR\<close>, in that order.\<close>

definition set_wheels :: "string \<Rightarrow> val \<times> val \<times> val \<times> val \<Rightarrow> dict \<Rightarrow> dict" where
  "set_wheels q w d =
     (case w of (v0, v1, v2, v3) \<Rightarrow>
        setitem (q @ ''_FR'') v3 (setitem (q @ ''_FL'') v2
          (setitem (q @ ''_RR'') v1 (setitem (q @ ''_RL'') v0 d))))"

definition motion_body :: "Game \<Rightarrow> PacketMotionData \<Rightarrow> datetime \<Rightarrow> nat \<Rightarrow> string \<Rightarrow> error + point" where
  "motion_body g p t i driver =
     and_then (idx (carMotionData p) i) (\<lambda>c.
       Inr \<lparr>measurement = ''MotionData'', tags = driver_tags g (header p) driver,
            time = strftime_iso t, point_fields = fields_dict c\<rparr>)"

definition my_motion_fields :: "PacketMotionData \<Rightarrow> error + dict" where
  "my_motion_fields p =
     (let f0 = setitem ''frontWheelsAngle'' (frontWheelsAngle p)
            (setitem ''angularAccelerationZ'' (angularAccelerationZ p)
            (setitem ''angularAccelerationY'' (angularAccelerationY p)
            (setitem ''angularAccelerationX'' (angularAccelerationX p)
            (setitem ''angularVelocityZ'' (angularVelocityZ p)
            (setitem ''angularVelocityY'' (angularVelocityY p)
            (setitem ''angularVelocityX'' (angularVelocityX p)
            (setitem ''localVelocityZ'' (localVelocityZ p)
            (setitem ''localVelocityY'' (localVelocityY p)
            (setitem ''localVelocityX'' (localVelocityX p) [])))))))))
      in and_then (idx4 (suspensionPosition p)) (\<lambda>w1.
         and_then (idx4 (suspensionVelocity p)) (\<lambda>w2.
         and_then (idx4 (suspensionAcceleration p)) (\<lambda>w3.
         and_then (idx4 (wheelSpeed p)) (\<lambda>w4.
         and_then (idx4 (wheelSlip p)) (\<lambda>w5.
           Inr (set_wheels ''wheelSlip'' w5 (set_wheels ''wheelSpeed'' w4
                 (set_wheels ''suspensionAcceleration'' w3 (set_wheels ''suspensionVelocity'' w2
                   (set_wheels ''suspensionPosition'' w1 f0)))))))))))"

definition processMotion :: "Game \<Rightarrow> PacketMotionData \<Rightarrow> datetime \<Rightarrow> error + Game \<times> point list" where
  "processMotion g p t =
     (case IsInitialized g of (g1, ready) \<Rightarrow>
        if \<not> ready then Inr (g1, [])
        else and_then (for_drivers (motion_body g1 p t) 0 (drivers g1)) (\<lambda>json.
             and_then (my_motion_fields p) (\<lambda>fs.
               Inr (g1, json @ [\<lparr>measurement = ''MyMotionData'', tags = base_tags g1 (header p),
                                 time = strftime_iso t, point_fields = fs\<rparr>]))))"

definition setup_body :: "Game \<Rightarrow> PacketCarSetupData \<Rightarrow> datetime \<Rightarrow> nat \<Rightarrow> string \<Rightarrow> error + point" where
  "setup_body g p t i driver =
     and_then (idx (carSetups p) i) (\<lambda>c.
       Inr \<lparr>measurement = ''CarSetupData'', tags = driver_tags g (header p) driver,
            time = strftime_iso t, point_fields = fields_dict c\<rparr>)"

definition processCarSetup :: "Game \<Rightarrow> PacketCarSetupData \<Rightarrow> datetime \<Rightarrow> error + Game \<times> point list" where
  "processCarSetup g p t =
     (case IsInitialized g of (g1, ready) \<Rightarrow>
        if \<not> ready then Inr (g1, [])
        else and_then (for_drivers (setup_body g1 p t) 0 (drivers g1)) (\<lambda>json. Inr (g1, json)))"

text \<open>
  \<^verbatim>\<open>processCarTelemetry\<close>: the five wheel arrays are read from the structure's attributes,
  written under the suffixed keys, and the array-valued keys are deleted.
\<close>

definition telemetry_fields :: "CarTelemetryData \<Rightarrow> error + dict" where
  "telemetry_fields c =
     and_then (idx4 (brakesTemperature c)) (\<lambda>w1.
     and_then (idx4 (tyresSurfaceTemperature c)) (\<lambda>w2.
     and_then (idx4 (tyresInnerTemperature c)) (\<lambda>w3.
     and_then (idx4 (tyresPressure c)) (\<lambda>w4.
     and_then (idx4 (surfaceType c)) (\<lambda>w5.
     and_then (delitem ''surfaceType''
                (set_wheels ''surfaceType'' w5 (set_wheels ''tyresPressure'' w4
                  (set_wheels ''tyresInnerTemperature'' w3
                    (set_wheels ''tyresSurfaceTemperature'' w2
                      (set_wheels ''brakesTemperature'' w1 (fields_dict c))))))) (\<lambda>f1.
     and_then (delitem ''tyresPressure'' f1) (\<lambda>f2.
     and_then (delitem ''tyresInnerTemperature'' f2) (\<lambda>f3.
     and_then (delitem ''tyresSurfaceTemperature'' f3) (\<lambda>f4.
       delitem ''brakesTemperature'' f4)))))))))"

definition telemetry_body :: "Game \<Rightarrow> PacketCarTelemetryData \<Rightarrow> datetime \<Rightarrow> nat \<Rightarrow> string \<Rightarrow> error + point" where
  "telemetry_body g p t i driver =
     and_then (idx (carTelemetryData p) i) (\<lambda>c.
     and_then (telemetry_fields c) (\<lambda>fs.
       Inr \<lparr>measurement = ''CarTelemetryData'', tags = driver_tags g (header p) driver,
            time = strftime_iso t, point_fields = fs\<rparr>))"

definition processCarTelemetry :: "Game \<Rightarrow> PacketCarTelemetryData \<Rightarrow> datetime \<Rightarrow> error + Game \<times> point list" where
  "processCarTelemetry g p t =
     (case IsInitialized g of (g1, ready) \<Rightarrow>
        if \<not> ready then Inr (g1, [])
        else and_then (for_drivers (telemetry_body g1 p t) 0 (drivers g1)) (\<lambda>json. Inr (g1, json)))"

text \<open>
  \<^verbatim>\<open>processCarStatus\<close> reads the arrays out of the dictionary itself:
  \<^verbatim>\<open>fields["tyresWear"][0]\<close> and so on. The keys written in between differ from the key
  read, so the four reads see the same value.
\<close>

definition sub4 :: "dict \<Rightarrow> string \<Rightarrow> error + (val \<times> val \<times> val \<times> val)" where
  "sub4 d k =
     and_then (getitem d k) (\<lambda>a.
     and_then (subscript a 0) (\<lambda>v0. and_then (subscript a 1) (\<lambda>v1.
     and_then (subscript a 2) (\<lambda>v2. and_then (subscript a 3) (\<lambda>v3. Inr (v0, v1, v2, v3))))))"

definition status_fields :: "Struct \<Rightarrow> error + dict" where
  "status_fields c =
     and_then (sub4 (fields_dict c) ''tyresWear'') (\<lambda>w1.
     and_then (sub4 (set_wheels ''tyresWear'' w1 (fields_dict c)) ''tyresDamage'') (\<lambda>w2.
     and_then (delitem ''tyresWear''
                (set_wheels ''tyresDamage'' w2 (set_wheels ''tyresWear'' w1 (fields_dict c)))) (\<lambda>f1.
       delitem ''tyresDamage'' f1)))"

definition status_body :: "Game \<Rightarrow> PacketCarStatusData \<Rightarrow> datetime \<Rightarrow> nat \<Rightarrow> string \<Rightarrow> error + point" where
  "status_body g p t i driver =
     and_then (idx (carStatusData p) i) (\<lambda>c.
     and_then (status_fields c) (\<lambda>fs.
       Inr \<lparr>measurement = ''CarStatusData'', tags = driver_tags g (header p) driver,
            time = strftime_iso t, point_fields = fs\<rparr>))"

definition processCarStatus :: "Game \<Rightarrow> PacketCarStatusData \<Rightarrow> datetime \<Rightarrow> error + Game \<times> point list" where
  "processCarStatus g p t =
     (case IsInitialized g of (g1, ready) \<Rightarrow>
        if \<not> ready then Inr (g1, [])
        else and_then (for_drivers (status_body g1 p t) 0 (drivers g1)) (\<lambda>json. Inr (g1, json)))"

definition lap_body :: "Game \<Rightarrow> PacketLapData \<Rightarrow> datetime \<Rightarrow> nat \<Rightarrow> string \<Rightarrow> error + point" where
  "lap_body g p t i driver =
     and_then (idx (lapData p) i) (\<lambda>c.
       Inr \<lparr>measurement = ''LapData'', tags = driver_tags g (header p) driver,
            time = strftime_iso t, point_fields = fields_dict c\<rparr>)"

definition processLap :: "Game \<Rightarrow> PacketLapData \<Rightarrow> datetime \<Rightarrow> error + Game \<times> point list" where
  "processLap g p t =
     (case IsInitialized g of (g1, ready) \<Rightarrow>
        if \<not> ready then Inr (g1, [])
        else and_then (for_drivers (lap_body g1 p t) 0 (drivers g1)) (\<lambda>json. Inr (g1, json)))"

subsection \<open>Session identity\<close>

text \<open>
  \<^verbatim>\<open>TrackIDs\<close> is a table of the packet library, from track number to track name; it is a
  parameter here, and a number outside it raises \<^verbatim>\<open>KeyError\<close>. The raw identifier is stored
  before the name is looked up, but a raised exception ends the recorder, so no later call
  sees that state.
\<close>

type_synonym TrackIDs = "int \<Rightarrow> string option"

definition session_identity :: "datetime \<Rightarrow> string \<Rightarrow> nat \<Rightarrow> string" where
  "session_identity t track formula = strftime_minute t @ ''_'' @ track @ ''_'' @ str_nat formula"

definition mySessionId :: "TrackIDs \<Rightarrow> Game \<Rightarrow> PacketSessionData \<Rightarrow> datetime \<Rightarrow> error + Game \<times> string option" where
  "mySessionId tracks g p t =
     (if Some (sessionUID (header p)) \<noteq> sessionIDBrut g then
        (case tracks (trackId p) of
           None \<Rightarrow> Inl KeyError
         | Some track \<Rightarrow>
             (let g' = g\<lparr>sessionIDBrut := Some (sessionUID (header p)),
                         sessionID := Some (session_identity t track (m_formula p))\<rparr>
              in Inr (g', sessionID g')))
      else Inr (g, sessionID g))"

subsection \<open>Methods that share one tag dictionary between their points\<close>

text \<open>
  \<^verbatim>\<open>processSession\<close> and \<^verbatim>\<open>processParticipant\<close> create \<^verbatim>\<open>dic\<close> once, before the loop,
  update it in every iteration and store a reference to it in every appended point. The
  points therefore hold an address into a store of tag dictionaries, and what the caller
  gets is each point with the final content of the dictionary it refers to.
\<close>

record ref_point =
  ref_measurement :: string
  tags_ref :: nat
  ref_time :: string
  ref_fields :: dict

type_synonym store = "dict list"

definition deref :: "store \<Rightarrow> ref_point \<Rightarrow> point" where
  "deref h r = \<lparr>measurement = ref_measurement r, tags = h ! tags_ref r,
                time = ref_time r, point_fields = ref_fields r\<rparr>"

definition session_tags :: "Game \<Rightarrow> PacketHeader \<Rightarrow> dict" where
  "session_tags g h =
     setitem ''packetId'' (VInt (int (packetId h)))
       (setitem ''sessionId'' (sid_val g)
         (setitem ''sessionTime'' (VFloat (sessionTime h)) []))"

fun marshal_loop :: "datetime \<Rightarrow> nat \<Rightarrow> nat \<Rightarrow> Struct list \<Rightarrow> store \<times> ref_point list \<Rightarrow> store \<times> ref_point list" where
  "marshal_loop t a i [] (h, json) = (h, json)"
| "marshal_loop t a i (mz # rest) (h, json) =
     marshal_loop t a (Suc i) rest
       (h[a := setitem ''MarshalZoneId'' (VStr (''MarshalZone'' @ str_nat i)) (h ! a)],
        json @ [\<lparr>ref_measurement = ''MarshalZones'', tags_ref = a,
                  ref_time = strftime_iso t, ref_fields = fields_dict mz\<rparr>])"

definition session_points :: "Game \<Rightarrow> PacketSessionData \<Rightarrow> datetime \<Rightarrow> error + point list" where
  "session_points g1 p t =
     (case marshal_loop t 0 0 (marshalZones p) ([session_tags g1 (header p)], []) of
        (h, json) \<Rightarrow>
          and_then (delitem ''marshalZones'' (fields_dict p)) (\<lambda>f1.
          and_then (delitem ''header'' f1) (\<lambda>f2.
            (let h' = h @ [session_tags g1 (header p)];
                 json' = json @ [\<lparr>ref_measurement = ''SessionData'', tags_ref = length h,
                                   ref_time = strftime_iso t, ref_fields = f2\<rparr>]
             in Inr (map (deref h') json')))))"

definition processSession :: "TrackIDs \<Rightarrow> Game \<Rightarrow> PacketSessionData \<Rightarrow> datetime \<Rightarrow> error + Game \<times> point list" where
  "processSession tracks g p t =
     and_then (mySessionId tracks g p t) (\<lambda>(g0, sid).
       (case IsInitialized (g0\<lparr>sessionID := sid\<rparr>) of (g1, ready) \<Rightarrow>
          if \<not> ready then Inr (g1, [])
          else and_then (session_points g1 p t) (\<lambda>json. Inr (g1, json))))"

definition event_fields :: "dict \<Rightarrow> error + dict" where
  "event_fields d =
     and_then (getitem d ''eventStringCode'') (\<lambda>v.
       (case v of
          VBytes b \<Rightarrow>
            and_then (decode b) (\<lambda>s. delitem ''header'' (setitem ''eventStringCode'' (VStr s) d))
        | _ \<Rightarrow> Inl AttributeError))"

definition processEvent :: "Game \<Rightarrow> PacketEventData \<Rightarrow> datetime \<Rightarrow> error + Game \<times> point list" where
  "processEvent g p t =
     (case IsInitialized g of (g1, ready) \<Rightarrow>
        if \<not> ready then Inr (g1, [])
        else and_then (event_fields (fields_dict p)) (\<lambda>fs.
               Inr (g1, [\<lparr>measurement = ''EventData'', tags = base_tags g1 (header p),
                          time = strftime_iso t, point_fields = fs\<rparr>])))"

text \<open>
  \<^verbatim>\<open>processParticipant\<close>. Before readiness the loop only rebuilds the roster. After it,
  each iteration appends the decoded name to the roster, writes it into the shared tag
  dictionary and appends a point.
\<close>

fun roster_loop :: "ParticipantData list \<Rightarrow> nat \<Rightarrow> nat \<Rightarrow> string list \<Rightarrow> error + string list" where
  "roster_loop ps i 0 ds = Inr ds"
| "roster_loop ps i (Suc n) ds =
     and_then (idx ps i) (\<lambda>part.
     and_then (decode (name part)) (\<lambda>driver.
       roster_loop ps (Suc i) n (ds @ [driver])))"

text \<open>
  Modelled from the spec: the \<^verbatim>\<open>fields\<close> property of the packet library's structures is
  not part of the sources. The point's field set is read a second time from
  \<^verbatim>\<open>packet.participants[i].fields\<close> after \<^verbatim>\<open>fields["name"] = driver\<close>, and following the
  specification (``that driver's participant fields (name included as a field)'') the
  second read sees the stored name.
\<close>

fun participant_loop :: "datetime \<Rightarrow> ParticipantData list \<Rightarrow> nat \<Rightarrow> nat \<Rightarrow>
    string list \<times> store \<times> ref_point list \<Rightarrow> error + string list \<times> store \<times> ref_point list" where
  "participant_loop t ps i 0 st = Inr st"
| "participant_loop t ps i (Suc n) (ds, h, json) =
     and_then (idx ps i) (\<lambda>part.
     and_then (decode (name part)) (\<lambda>driver.
       participant_loop t ps (Suc i) n
         (ds @ [driver],
          h[0 := setitem ''driver'' (VStr driver) (h ! 0)],
          json @ [\<lparr>ref_measurement = ''ParticipantData'', tags_ref = 0,
                    ref_time = strftime_iso t,
                    ref_fields = setitem ''name'' (VStr driver) (fields_dict part)\<rparr>])))"

definition processParticipant :: "Game \<Rightarrow> PacketParticipantsData \<Rightarrow> datetime \<Rightarrow> error + Game \<times> point list" where
  "processParticipant g p t =
     (case IsInitialized g of (g1, ready) \<Rightarrow>
        if \<not> ready then
          and_then (roster_loop (participants p) 0 (numActiveCars p) []) (\<lambda>ds.
            Inr (g1\<lparr>drivers := ds\<rparr>, []))
        else
          and_then (delitem ''header'' (fields_dict p)) (\<lambda>_.
          and_then (participant_loop t (participants p) 0 (numActiveCars p)
                      ([], [base_tags g1 (header p)], [])) (\<lambda>(ds, h, json).
            Inr (g1\<lparr>drivers := ds\<rparr>, map (deref h) json))))"

subsection \<open>Feeding typed packets to the tracker\<close>

datatype packet =
    Motion PacketMotionData
  | Session PacketSessionData
  | LapData PacketLapData
  | Event PacketEventData
  | Participants PacketParticipantsData
  | CarSetups PacketCarSetupData
  | CarTelemetry PacketCarTelemetryData
  | CarStatus PacketCarStatusData

text \<open>The method of the tracker that belongs to a packet's type.\<close>

definition process :: "TrackIDs \<Rightarrow> Game \<Rightarrow> packet \<times> datetime \<Rightarrow> error + Game \<times> point list" where
  "process tracks g pt =
     (case pt of
        (Motion p, t) \<Rightarrow> processMotion g p t
      | (Session p, t) \<Rightarrow> processSession tracks g p t
      | (LapData p, t) \<Rightarrow> processLap g p t
      | (Event p, t) \<Rightarrow> processEvent g p t
      | (Participants p, t) \<Rightarrow> processParticipant g p t
      | (CarSetups p, t) \<Rightarrow> processCarSetup g p t
      | (CarTelemetry p, t) \<Rightarrow> processCarTelemetry g p t
      | (CarStatus p, t) \<Rightarrow> processCarStatus g p t)"

fun feed :: "TrackIDs \<Rightarrow> Game \<Rightarrow> (packet \<times> datetime) list \<Rightarrow> error + Game" where
  "feed tracks g [] = Inr g"
| "feed tracks g (pt # rest) =
     and_then (process tracks g pt) (\<lambda>(g', json). feed tracks g' rest)"

section \<open>The recorder (\<^verbatim>\<open>main.py\<close>)\<close>

text \<open>
  The packet library is used through five names: the size of the header structure, the
  header read from the first bytes of a datagram, the table from (format, version, id) to
  a packet type, the size of a packet type, and the full decoder. They are the fields of
  a record passed to the recorder. The decoder returns the packet class the table names
  for the header; the model raises \<^verbatim>\<open>AttributeError\<close> should it hand back another one.
\<close>

record 'ty library =
  sizeof_PacketHeader :: nat
  from_buffer_copy :: "bytes \<Rightarrow> PacketHeader"
  HeaderFieldsToPacketType :: "nat \<times> nat \<times> nat \<Rightarrow> 'ty option"
  sizeof :: "'ty \<Rightarrow> nat"
  unpack_udp_packet :: "bytes \<Rightarrow> packet"

datatype PacketID =
    MOTION
  | SESSION
  | LAP_DATA
  | EVENT
  | PARTICIPANTS
  | CAR_SETUPS
  | CAR_TELEMETRY
  | CAR_STATUS

fun PacketID_value :: "PacketID \<Rightarrow> nat" where
  "PacketID_value MOTION = 0"
| "PacketID_value SESSION = 1"
| "PacketID_value LAP_DATA = 2"
| "PacketID_value EVENT = 3"
| "PacketID_value PARTICIPANTS = 4"
| "PacketID_value CAR_SETUPS = 5"
| "PacketID_value CAR_TELEMETRY = 6"
| "PacketID_value CAR_STATUS = 7"

text \<open>What the recorder does to the outside: log lines, the printed count, sink writes.\<close>

datatype effect =
    Dropped_too_short nat
  | Dropped_unrecognized "nat \<times> nat \<times> nat"
  | Dropped_unexpected_size "nat \<times> nat \<times> nat" nat nat
  | Write_points "point list"
  | Printed_count nat
  | Recorded nat
  | No_packets_received timedelta

type_synonym TimestampedPacket = "datetime \<times> bytes"

record loop_state =
  game :: Game
  jsonMessages :: "(PacketID \<times> point list) list"
  effects :: "effect list"

text \<open>\<^verbatim>\<open>jsonMessages[key] = self.game.processX(unpacket, timestamp)\<close>.\<close>

definition assign :: "loop_state \<Rightarrow> PacketID \<Rightarrow> error + Game \<times> point list \<Rightarrow> error + loop_state" where
  "assign st key r =
     and_then r (\<lambda>(g, json).
       Inr (st\<lparr>game := g, jsonMessages := AList.update key json (jsonMessages st)\<rparr>))"

definition dispatch :: "TrackIDs \<Rightarrow> loop_state \<Rightarrow> nat \<Rightarrow> packet \<Rightarrow> datetime \<Rightarrow> error + loop_state" where
  "dispatch tracks st pid unpacket timestamp =
     (if pid = PacketID_value MOTION then
        (case unpacket of Motion p \<Rightarrow> assign st MOTION (processMotion (game st) p timestamp)
         | _ \<Rightarrow> Inl AttributeError)
      else if pid = PacketID_value SESSION then
        (case unpacket of Session p \<Rightarrow> assign st SESSION (processSession tracks (game st) p timestamp)
         | _ \<Rightarrow> Inl AttributeError)
      else if pid = PacketID_value LAP_DATA then
        (case unpacket of LapData p \<Rightarrow> assign st LAP_DATA (processLap (game st) p timestamp)
         | _ \<Rightarrow> Inl AttributeError)
      else if pid = PacketID_value EVENT then
        (case unpacket of Event p \<Rightarrow> assign st EVENT (processEvent (game st) p timestamp)
         | _ \<Rightarrow> Inl AttributeError)
      else if pid = PacketID_value PARTICIPANTS then
        (case unpacket of Participants p \<Rightarrow>
           assign st PARTICIPANTS (processParticipant (game st) p timestamp)
         | _ \<Rightarrow> Inl AttributeError)
      else if pid = PacketID_value CAR_SETUPS then
        (case unpacket of CarSetups p \<Rightarrow>
           assign st CAR_STATUS (processCarSetup (game st) p timestamp)
         | _ \<Rightarrow> Inl AttributeError)
      else if pid = PacketID_value CAR_STATUS then
        (case unpacket of CarStatus p \<Rightarrow>
           assign st CAR_STATUS (processCarStatus (game st) p timestamp)
         | _ \<Rightarrow> Inl AttributeError)
      else if pid = PacketID_value CAR_TELEMETRY then
        (case unpacket of CarTelemetry p \<Rightarrow>
           assign st CAR_TELEMETRY (processCarTelemetry (game st) p timestamp)
         | _ \<Rightarrow> Inl AttributeError)
      else Inr st)"

text \<open>One iteration of \<^verbatim>\<open>for (timestamp, packet) in timestamped_packets\<close>.\<close>

definition packet_step :: "'ty library \<Rightarrow> TrackIDs \<Rightarrow> loop_state \<Rightarrow> TimestampedPacket \<Rightarrow> error + loop_state" where
  "packet_step lib tracks st tp =
     (case tp of (timestamp, packet) \<Rightarrow>
        if length packet < sizeof_PacketHeader lib then
          Inr (st\<lparr>effects := effects st @ [Dropped_too_short (length packet)]\<rparr>)
        else
          (let header = from_buffer_copy lib packet;
               packet_type_tuple = (packetFormat header, packetVersion header, packetId header)
           in case HeaderFieldsToPacketType lib packet_type_tuple of
                None \<Rightarrow>
                  Inr (st\<lparr>effects := effects st @ [Dropped_unrecognized packet_type_tuple]\<rparr>)
              | Some packet_type \<Rightarrow>
                  if length packet \<noteq> sizeof lib packet_type then
                    Inr (st\<lparr>effects := effects st @
                           [Dropped_unexpected_size packet_type_tuple (length packet)
                              (sizeof lib packet_type)]\<rparr>)
                  else dispatch tracks st (packetId header) (unpack_udp_packet lib packet) timestamp))"

fun packets_loop :: "'ty library \<Rightarrow> TrackIDs \<Rightarrow> loop_state \<Rightarrow> TimestampedPacket list \<Rightarrow> error + loop_state" where
  "packets_loop lib tracks st [] = Inr st"
| "packets_loop lib tracks st (tp # rest) =
     and_then (packet_step lib tracks st tp) (\<lambda>st'. packets_loop lib tracks st' rest)"

text \<open>
  After the loop every value of \<^verbatim>\<open>jsonMessages\<close> is written, in the order the keys were
  first stored; then the count is printed and the number of datagrams logged. The sink's
  \<^verbatim>\<open>write_points\<close> is taken to return; timing is not modelled.
\<close>

definition process_incoming_packets :: "'ty library \<Rightarrow> TrackIDs \<Rightarrow> Game \<Rightarrow> TimestampedPacket list \<Rightarrow> error + Game \<times> effect list" where
  "process_incoming_packets lib tracks g timestamped_packets =
     and_then (packets_loop lib tracks \<lparr>game = g, jsonMessages = [], effects = []\<rparr> timestamped_packets)
       (\<lambda>st. Inr (game st,
                   effects st
                   @ map (\<lambda>(k, v). Write_points v) (jsonMessages st)
                   @ [Printed_count (sum_list (map (\<lambda>(k, v). length v) (jsonMessages st))),
                      Recorded (length timestamped_packets)]))"

subsection \<open>The flush loop (\<^verbatim>\<open>PacketRecorderThread.run\<close>)\<close>

text \<open>
  One iteration of the loop after the wait: the drained list and, when it is empty, the
  clock reading \<^verbatim>\<open>t_now\<close>. The state is the inactivity timer and the recorder's tracker.
\<close>

definition run_iteration :: "'ty library \<Rightarrow> TrackIDs \<Rightarrow> datetime \<times> Game \<Rightarrow> datetime \<times> TimestampedPacket list \<Rightarrow>
    error + (datetime \<times> Game) \<times> effect list" where
  "run_iteration lib tracks s tick =
     (case (s, tick) of ((inactivity_timer, g), (t_now, packets)) \<Rightarrow>
        if length packets \<noteq> 0 then
          and_then (process_incoming_packets lib tracks g packets) (\<lambda>(g', out).
            Inr ((fst (last packets), g'), out))
        else
          Inr ((t_now, g), [No_packets_received (datetime_sub t_now inactivity_timer)]))"

fun run :: "'ty library \<Rightarrow> TrackIDs \<Rightarrow> datetime \<times> Game \<Rightarrow> (datetime \<times> TimestampedPacket list) list \<Rightarrow>
    error + (datetime \<times> Game) \<times> effect list list" where
  "run lib tracks s [] = Inr (s, [])"
| "run lib tracks s (tick # ticks) =
     and_then (run_iteration lib tracks s tick) (\<lambda>(s', out).
     and_then (run lib tracks s' ticks) (\<lambda>(s'', outs). Inr (s'', out # outs)))"

section \<open>Derived notions used in the statements\<close>

fun packet_kind :: "packet \<Rightarrow> PacketID" where
  "packet_kind (Motion p) = MOTION"
| "packet_kind (Session p) = SESSION"
| "packet_kind (LapData p) = LAP_DATA"
| "packet_kind (Event p) = EVENT"
| "packet_kind (Participants p) = PARTICIPANTS"
| "packet_kind (CarSetups p) = CAR_SETUPS"
| "packet_kind (CarTelemetry p) = CAR_TELEMETRY"
| "packet_kind (CarStatus p) = CAR_STATUS"

definition kinds :: "(packet \<times> datetime) list \<Rightarrow> PacketID set" where
  "kinds ps = set (map (packet_kind \<circ> fst) ps)"

text \<open>The sink writes among the effects of a flush, in order.\<close>

fun writes :: "effect list \<Rightarrow> point list list" where
  "writes [] = []"
| "writes (Write_points b # es) = b # writes es"
| "writes (e # es) = writes es"

text \<open>
  The sizes the packet format fixes: twenty car slots in every per-car array, four wheels
  in every wheel array. \<open>sized\<close> says that a packet has them; the number of active cars of
  a participants packet is a byte of the datagram and is bounded separately.
\<close>

definition wheel_array :: "dict \<Rightarrow> string \<Rightarrow> bool" where
  "wheel_array d k = (case map_of d k of Some (VArr xs) \<Rightarrow> length xs = 4 | _ \<Rightarrow> True)"

definition sized_telemetry :: "CarTelemetryData \<Rightarrow> bool" where
  "sized_telemetry c =
     (length (brakesTemperature c) = 4 \<and> length (tyresSurfaceTemperature c) = 4 \<and>
      length (tyresInnerTemperature c) = 4 \<and> length (tyresPressure c) = 4 \<and>
      length (surfaceType c) = 4)"

fun sized :: "packet \<Rightarrow> bool" where
  "sized (Motion p) =
     (length (carMotionData p) = 20 \<and> length (suspensionPosition p) = 4 \<and>
      length (suspensionVelocity p) = 4 \<and> length (suspensionAcceleration p) = 4 \<and>
      length (wheelSpeed p) = 4 \<and> length (wheelSlip p) = 4)"
| "sized (Session p) = True"
| "sized (LapData p) = (length (lapData p) = 20)"
| "sized (Event p) = True"
| "sized (Participants p) = (length (participants p) = 20)"
| "sized (CarSetups p) = (length (carSetups p) = 20)"
| "sized (CarTelemetry p) =
     (length (carTelemetryData p) = 20 \<and> list_all sized_telemetry (carTelemetryData p))"
| "sized (CarStatus p) =
     (length (carStatusData p) = 20 \<and>
      list_all (\<lambda>c. wheel_array (fields_dict c) ''tyresWear'' \<and>
                     wheel_array (fields_dict c) ''tyresDamage'') (carStatusData p))"

fun active_cars_bounded :: "packet \<Rightarrow> bool" where
  "active_cars_bounded (Participants p) = (numActiveCars p \<le> 20)"
| "active_cars_bounded _ = True"

text \<open>A participant whose name bytes decode, and the point a participant's slot yields.\<close>

definition decodable :: "ParticipantData \<Rightarrow> bool" where
  "decodable part = utf8_ok (map of_char (name part))"

definition participant_point :: "datetime \<Rightarrow> ParticipantData \<Rightarrow> ref_point" where
  "participant_point t part =
     \<lparr>ref_measurement = ''ParticipantData'', tags_ref = 0, ref_time = strftime_iso t,
      ref_fields = setitem ''name'' (VStr (name part)) (fields_dict part)\<rparr>"

definition wheel_keys :: "string \<Rightarrow> string list" where
  "wheel_keys q = [q @ ''_RL'', q @ ''_RR'', q @ ''_FL'', q @ ''_FR'']"

definition wheel_vals :: "dict \<Rightarrow> string \<Rightarrow> val list \<Rightarrow> bool" where
  "wheel_vals fs q a =
     (map_of fs (q @ ''_RL'') = Some (a ! 0) \<and> map_of fs (q @ ''_RR'') = Some (a ! 1) \<and>
      map_of fs (q @ ''_FL'') = Some (a ! 2) \<and> map_of fs (q @ ''_FR'') = Some (a ! 3))"

definition wheels_of :: "dict \<Rightarrow> string \<Rightarrow> val list \<Rightarrow> bool" where
  "wheels_of fs q a = (wheel_vals fs q a \<and> map_of fs q = None)"

definition expanded :: "CarTelemetryData \<Rightarrow> dict \<Rightarrow> bool" where
  "expanded c fs =
     (wheels_of fs ''tyresPressure'' (tyresPressure c) \<and>
      wheels_of fs ''brakesTemperature'' (brakesTemperature c) \<and>
      wheels_of fs ''tyresSurfaceTemperature'' (tyresSurfaceTemperature c) \<and>
      wheels_of fs ''tyresInnerTemperature'' (tyresInnerTemperature c) \<and>
      wheels_of fs ''surfaceType'' (surfaceType c))"

definition has_array_keys :: "CarTelemetryData \<Rightarrow> bool" where
  "has_array_keys c =
     (set [''surfaceType'', ''tyresPressure'', ''tyresInnerTemperature'',
           ''tyresSurfaceTemperature'', ''brakesTemperature''] \<subseteq> fst ` set (fields_dict c))"

definition telemetry_car_ok :: "CarTelemetryData \<Rightarrow> bool" where
  "telemetry_car_ok c = (sized_telemetry c \<and> has_array_keys c)"

definition in_bounds :: "error + 'a \<Rightarrow> bool" where
  "in_bounds m = (m \<noteq> Inl IndexError)"

definition zone_point :: "datetime \<Rightarrow> nat \<Rightarrow> Struct \<Rightarrow> ref_point" where
  "zone_point t a mz = \<lparr>ref_measurement = ''MarshalZones'', tags_ref = a,
                         ref_time = strftime_iso t, ref_fields = fields_dict mz\<rparr>"

definition zone_label :: "nat \<Rightarrow> val" where
  "zone_label i = VStr (''MarshalZone'' @ str_nat i)"

definition event_point :: "string \<Rightarrow> datetime \<Rightarrow> point" where
  "event_point code t =
     \<lparr>measurement = ''EventData'',
      tags = [(''sessionId'', VStr ''20200101_1200_Melbourne_0''), (''sessionTime'', VFloat 0),
              (''packetId'', VInt 3)],
      time = strftime_iso t, point_fields = [(''eventStringCode'', VStr code)]\<rparr>"

definition tidy :: "loop_state \<Rightarrow> bool" where
  "tidy st = (writes (effects st) = [] \<and> distinct (map fst (jsonMessages st)))"

text \<open>
  The description of a flush that the implementation is compared with. A datagram is
  accepted when it is at least a header long, its (format, version, id) is in the table
  and its length is the size of the type found; \<open>decoded\<close> is then the unpacked packet
  with its timestamp. \<open>class_matches\<close> is the library's contract that the unpacked packet
  is of the class the header's id names.
\<close>

definition decoded :: "'ty library \<Rightarrow> TimestampedPacket \<Rightarrow> (packet \<times> datetime) option" where
  "decoded lib tp =
     (case tp of (timestamp, packet) \<Rightarrow>
        if length packet < sizeof_PacketHeader lib then None
        else
          (let header = from_buffer_copy lib packet in
           case HeaderFieldsToPacketType lib
                  (packetFormat header, packetVersion header, packetId header) of
             None \<Rightarrow> None
           | Some packet_type \<Rightarrow>
               if length packet \<noteq> sizeof lib packet_type then None
               else Some (unpack_udp_packet lib packet, timestamp)))"

definition class_matches :: "'ty library \<Rightarrow> TimestampedPacket \<Rightarrow> bool" where
  "class_matches lib tp =
     (case decoded lib tp of
        None \<Rightarrow> True
      | Some (u, ts) \<Rightarrow> packetId (from_buffer_copy lib (snd tp)) = PacketID_value (packet_kind u))"

text \<open>
  \<open>replace_batches\<close> follows the words of the amended claim: the accepted packets are given
  to the tracker in arrival order, and the records returned for a packet become the batch
  of the packet's type, in place of the batch that type had.
\<close>

fun replace_batches :: "TrackIDs \<Rightarrow> Game \<times> (PacketID \<Rightarrow> point list option) \<Rightarrow>
    (packet \<times> datetime) list \<Rightarrow> error + Game \<times> (PacketID \<Rightarrow> point list option)" where
  "replace_batches tracks (g, b) [] = Inr (g, b)"
| "replace_batches tracks (g, b) (pt # rest) =
     and_then (process tracks g pt) (\<lambda>(g', json).
       replace_batches tracks (g', b(packet_kind (fst pt) \<mapsto> json)) rest)"

text \<open>A loop state and a described state agree outside the types in \<open>X\<close>.\<close>

definition agree :: "PacketID set \<Rightarrow> loop_state \<Rightarrow> Game \<times> (PacketID \<Rightarrow> point list option) \<Rightarrow> bool" where
  "agree X st gb = (game st = fst gb \<and> (\<forall>K. K \<notin> X \<longrightarrow> map_of (jsonMessages st) K = snd gb K))"

section \<open>Concrete data for the closed examples\<close>

definition t0 :: datetime where
  "t0 = \<lparr>year = 2020, month = 1, day = 1, hour = 12, minute = 0, second = 5, microsecond = 0\<rparr>"

definition t1 :: datetime where
  "t1 = \<lparr>year = 2020, month = 1, day = 1, hour = 12, minute = 0, second = 15, microsecond = 0\<rparr>"

definition t2 :: datetime where
  "t2 = \<lparr>year = 2020, month = 1, day = 1, hour = 12, minute = 0, second = 25, microsecond = 0\<rparr>"

definition tracks0 :: TrackIDs where
  "tracks0 = map_of [(0, ''Melbourne''), (1, ''Paul Ricard'')]"

definition hdr :: "nat \<Rightarrow> 64 word \<Rightarrow> PacketHeader" where
  "hdr pid uid = \<lparr>packetFormat = 2019, packetVersion = 1, packetId = pid, sessionUID = uid,
                   sessionTime = 0\<rparr>"

definition zone :: "nat \<Rightarrow> Struct" where
  "zone i = \<lparr>fields_dict = [(''zoneStart'', VFloat (of_nat i / 21)), (''zoneFlag'', VInt 0)]\<rparr>"

definition session_ex :: "64 word \<Rightarrow> PacketSessionData" where
  "session_ex uid =
     \<lparr>fields_dict = [(''header'', VObj), (''weather'', VInt 1), (''marshalZones'', VObj),
                      (''trackId'', VInt 0), (''m_formula'', VInt 0)],
      header = hdr 1 uid, marshalZones = map zone [0..<21], trackId = 0, m_formula = 0\<rparr>"

definition participant_ex :: "string \<Rightarrow> ParticipantData" where
  "participant_ex n = \<lparr>fields_dict = [(''aiControlled'', VInt 1), (''name'', VBytes n)], name = n\<rparr>"

definition participants_ex :: "nat \<Rightarrow> PacketParticipantsData" where
  "participants_ex k =
     \<lparr>fields_dict = [(''header'', VObj), (''numActiveCars'', VInt (int k)), (''participants'', VObj)],
      header = hdr 4 1, numActiveCars = k,
      participants = participant_ex ''HAMILTON'' # participant_ex ''VETTEL''
                     # replicate 18 (participant_ex [])\<rparr>"

definition event_ex :: "bytes \<Rightarrow> PacketEventData" where
  "event_ex code =
     \<lparr>fields_dict = [(''header'', VObj), (''eventStringCode'', VBytes code)], header = hdr 3 1\<rparr>"

definition telemetry_car :: CarTelemetryData where
  "telemetry_car =
     \<lparr>fields_dict = [(''speed'', VInt 210),
                      (''brakesTemperature'', VArr [VInt 400, VInt 401, VInt 402, VInt 403]),
                      (''tyresSurfaceTemperature'', VArr [VInt 90, VInt 91, VInt 92, VInt 93]),
                      (''tyresInnerTemperature'', VArr [VInt 100, VInt 101, VInt 102, VInt 103]),
                      (''tyresPressure'', VArr [VFloat 1, VFloat 2, VFloat 3, VFloat 4]),
                      (''surfaceType'', VArr [VInt 0, VInt 0, VInt 1, VInt 1])],
      brakesTemperature = [VInt 400, VInt 401, VInt 402, VInt 403],
      tyresSurfaceTemperature = [VInt 90, VInt 91, VInt 92, VInt 93],
      tyresInnerTemperature = [VInt 100, VInt 101, VInt 102, VInt 103],
      tyresPressure = [VFloat 1, VFloat 2, VFloat 3, VFloat 4],
      surfaceType = [VInt 0, VInt 0, VInt 1, VInt 1]\<rparr>"

definition telemetry_ex :: PacketCarTelemetryData where
  "telemetry_ex =
     \<lparr>fields_dict = [(''header'', VObj)], header = hdr 6 1,
      carTelemetryData = replicate 20 telemetry_car\<rparr>"

definition motion_ex :: PacketMotionData where
  "motion_ex =
     \<lparr>fields_dict = [(''header'', VObj)], header = hdr 0 1,
      carMotionData = replicate 20 \<lparr>fields_dict = [(''worldPositionX'', VFloat 0)]\<rparr>,
      suspensionPosition = replicate 4 (VFloat 0), suspensionVelocity = replicate 4 (VFloat 0),
      suspensionAcceleration = replicate 4 (VFloat 0), wheelSpeed = replicate 4 (VFloat 0),
      wheelSlip = replicate 4 (VFloat 0),
      localVelocityX = VFloat 0, localVelocityY = VFloat 0, localVelocityZ = VFloat 0,
      angularVelocityX = VFloat 0, angularVelocityY = VFloat 0, angularVelocityZ = VFloat 0,
      angularAccelerationX = VFloat 0, angularAccelerationY = VFloat 0,
      angularAccelerationZ = VFloat 0, frontWheelsAngle = VFloat 0\<rparr>"

text \<open>A tracker that has seen a two-driver roster and a session: it is Ready.\<close>

definition ready_game :: Game where
  "ready_game = \<lparr>drivers = [''HAMILTON'', ''VETTEL''],
                  sessionID = Some ''20200101_1200_Melbourne_0'',
                  sessionIDBrut = Some 1, init = True\<rparr>"

text \<open>
  An instance of the library interface for the closed examples. The header has the layout
  of the 2019 format (23 bytes: format in bytes 0 and 1, version in byte 4, packet id in
  byte 5, the session identifier from byte 6); an event datagram has 32 bytes with the
  four-character code after the header. Other payloads are not decoded: the instance
  hands back the fixed example packet of the type.
\<close>

definition header0 :: "bytes \<Rightarrow> PacketHeader" where
  "header0 b = \<lparr>packetFormat = of_char (b ! 0) + 256 * of_char (b ! 1),
                 packetVersion = of_char (b ! 4), packetId = of_char (b ! 5),
                 sessionUID = of_nat (of_char (b ! 6)), sessionTime = 0\<rparr>"

definition table0 :: "nat \<times> nat \<times> nat \<Rightarrow> PacketID option" where
  "table0 key =
     map_of [((2019, 1, 0), MOTION), ((2019, 1, 1), SESSION), ((2019, 1, 2), LAP_DATA),
             ((2019, 1, 3), EVENT), ((2019, 1, 4), PARTICIPANTS), ((2019, 1, 5), CAR_SETUPS),
             ((2019, 1, 6), CAR_TELEMETRY), ((2019, 1, 7), CAR_STATUS)] key"

fun sizeof0 :: "PacketID \<Rightarrow> nat" where
  "sizeof0 MOTION = 1343"
| "sizeof0 SESSION = 149"
| "sizeof0 LAP_DATA = 843"
| "sizeof0 EVENT = 32"
| "sizeof0 PARTICIPANTS = 1104"
| "sizeof0 CAR_SETUPS = 843"
| "sizeof0 CAR_TELEMETRY = 1347"
| "sizeof0 CAR_STATUS = 1143"

definition unpack0 :: "bytes \<Rightarrow> packet" where
  "unpack0 b =
     (let h = header0 b in
      if packetId h = 0 then Motion (motion_ex\<lparr>header := h\<rparr>)
      else if packetId h = 1 then Session ((session_ex (sessionUID h))\<lparr>header := h\<rparr>)
      else if packetId h = 3 then Event ((event_ex (take 4 (drop 23 b)))\<lparr>header := h\<rparr>)
      else if packetId h = 4 then Participants ((participants_ex 2)\<lparr>header := h\<rparr>)
      else CarTelemetry (telemetry_ex\<lparr>header := h\<rparr>))"

definition lib0 :: "PacketID library" where
  "lib0 = \<lparr>sizeof_PacketHeader = 23, from_buffer_copy = header0,
           HeaderFieldsToPacketType = table0, sizeof = sizeof0, unpack_udp_packet = unpack0\<rparr>"

text \<open>A datagram of the 2019 format: packet id, session byte, payload.\<close>

definition datagram :: "nat \<Rightarrow> nat \<Rightarrow> bytes \<Rightarrow> bytes" where
  "datagram pid uid payload =
     map char_of [227, 7, 1, 3, 1, pid, uid] @ replicate 16 (CHR 0x00) @ payload"

definition event_datagram :: "bytes \<Rightarrow> bytes" where
  "event_datagram code = datagram 3 1 (code @ replicate 5 (CHR 0x00))"

definition motion_datagram :: bytes where
  "motion_datagram = datagram 0 1 (replicate 1320 (CHR 0x00))"

text \<open>The tracker after one session packet, and the Ready tracker after an empty roster.\<close>

definition g_session :: Game where
  "g_session = \<lparr>drivers = [], sessionID = Some ''20200101_1200_Melbourne_0'',
                 sessionIDBrut = Some 1, init = False\<rparr>"

definition g_empty_roster :: Game where
  "g_empty_roster = ready_game\<lparr>drivers := []\<rparr>"

text \<open>What a flush carries from one datagram to the next, apart from the log.\<close>

definition core :: "loop_state \<Rightarrow> Game \<times> (PacketID \<times> point list) list" where
  "core s = (game s, jsonMessages s)"

definition loop_init :: "Game \<Rightarrow> loop_state" where
  "loop_init g = \<lparr>game = g, jsonMessages = [], effects = []\<rparr>"

text \<open>A datagram one byte shorter than the header.\<close>

definition short_datagram :: bytes where
  "short_datagram = replicate 22 (CHR 0x00)"

definition g_session2 :: Game where
  "g_session2 = \<lparr>drivers = [], sessionID = Some ''20200101_1200_Melbourne_0'',
                  sessionIDBrut = Some 2, init = False\<rparr>"

definition ps_ex :: "(packet \<times> datetime) list" where
  "ps_ex = [(Participants (participants_ex 2), t0), (Session (session_ex 1), t0),
            (Motion motion_ex, t1), (CarTelemetry telemetry_ex, t2)]"

definition two_events :: "TimestampedPacket list" where
  "two_events = [(t0, event_datagram ''SSTA''), (t1, event_datagram ''SEND'')]"

definition after_second_event :: loop_state where
  "after_second_event =
     \<lparr>game = ready_game, jsonMessages = [(EVENT, [event_point ''SEND'' t1])], effects = []\<rparr>"

definition decoded_events :: "(packet \<times> datetime) list" where
  "decoded_events = [(Event (event_ex ''SSTA''), t0), (Event (event_ex ''SEND''), t1)]"

section \<open>Basic facts\<close>

lemma and_then_Inr: "and_then m f = Inr y \<longleftrightarrow> (\<exists>x. m = Inr x \<and> f x = Inr y)"
  by (cases m) (simp_all add: and_then_def)

lemma and_then_Inl: "and_then m f = Inl e \<longleftrightarrow> m = Inl e \<or> (\<exists>x. m = Inr x \<and> f x = Inl e)"
  by (cases m) (simp_all add: and_then_def)

lemma and_then_simps [simp]: "and_then (Inl e) f = Inl e" "and_then (Inr x) f = f x"
  by (simp_all add: and_then_def)

lemma IsInitialized_fields:
  "drivers (fst (IsInitialized g)) = drivers g"
  "sessionID (fst (IsInitialized g)) = sessionID g"
  "sessionIDBrut (fst (IsInitialized g)) = sessionIDBrut g"
  "init (fst (IsInitialized g)) = snd (IsInitialized g)"
  "snd (IsInitialized g) = (init g \<or> (drivers g \<noteq> [] \<and> sessionID g \<noteq> None))"
  by (auto simp: IsInitialized_def Let_def)

lemma IsInitialized_not_ready:
  "\<not> init g \<Longrightarrow> drivers g = [] \<or> sessionID g = None \<Longrightarrow> IsInitialized g = (g, False)"
  by (auto simp: IsInitialized_def Let_def)

lemma IsInitialized_ready: "init g \<Longrightarrow> IsInitialized g = (g, True)"
  by (simp add: IsInitialized_def)

lemma processMotion_game: "processMotion g p t = Inr (g', js) \<Longrightarrow> g' = fst (IsInitialized g)"
  by (auto simp: processMotion_def and_then_Inr split: prod.splits if_splits)

lemma processLap_game: "processLap g p t = Inr (g', js) \<Longrightarrow> g' = fst (IsInitialized g)"
  by (auto simp: processLap_def and_then_Inr split: prod.splits if_splits)

lemma processEvent_game: "processEvent g p t = Inr (g', js) \<Longrightarrow> g' = fst (IsInitialized g)"
  by (auto simp: processEvent_def and_then_Inr split: prod.splits if_splits)

lemma processCarSetup_game: "processCarSetup g p t = Inr (g', js) \<Longrightarrow> g' = fst (IsInitialized g)"
  by (auto simp: processCarSetup_def and_then_Inr split: prod.splits if_splits)

lemma processCarTelemetry_game:
  "processCarTelemetry g p t = Inr (g', js) \<Longrightarrow> g' = fst (IsInitialized g)"
  by (auto simp: processCarTelemetry_def and_then_Inr split: prod.splits if_splits)

lemma processCarStatus_game: "processCarStatus g p t = Inr (g', js) \<Longrightarrow> g' = fst (IsInitialized g)"
  by (auto simp: processCarStatus_def and_then_Inr split: prod.splits if_splits)

lemma processParticipant_game:
  "processParticipant g p t = Inr (g', js) \<Longrightarrow> \<exists>ds. g' = (fst (IsInitialized g))\<lparr>drivers := ds\<rparr>"
  by (auto simp: processParticipant_def and_then_Inr split: prod.splits if_splits)

lemma mySessionId_result:
  "mySessionId tracks g p t = Inr (g0, sid) \<Longrightarrow>
     sid = sessionID g0 \<and> drivers g0 = drivers g \<and> init g0 = init g"
  by (auto simp: mySessionId_def Let_def split: if_splits option.splits)

lemma processSession_game:
  assumes "processSession tracks g p t = Inr (g', js)"
  shows "\<exists>g0. mySessionId tracks g p t = Inr (g0, sessionID g0) \<and> g' = fst (IsInitialized g0)"
proof -
  from assms obtain g0 sid where m: "mySessionId tracks g p t = Inr (g0, sid)"
    by (auto simp: processSession_def and_then_Inr)
  from mySessionId_result [OF m] have sid: "sid = sessionID g0" by simp
  then have "g0\<lparr>sessionID := sid\<rparr> = g0" by simp
  with assms m have "g' = fst (IsInitialized g0)"
    by (auto simp: processSession_def and_then_Inr split: prod.splits if_splits)
  with m sid show ?thesis by auto
qed

lemma process_state:
  assumes "process tracks g (pk, t) = Inr (g', js)"
  shows "packet_kind pk \<noteq> PARTICIPANTS \<longrightarrow> drivers g' = drivers g"
    and "packet_kind pk \<noteq> SESSION \<longrightarrow> sessionID g' = sessionID g"
    and "init g' \<longrightarrow> init g \<or> (drivers g \<noteq> [] \<and> sessionID g' \<noteq> None)"
    and "init g \<longrightarrow> init g'"
  using assms
  by (cases pk; auto simp: process_def IsInitialized_fields
      dest!: processMotion_game processLap_game processEvent_game processCarSetup_game
        processCarTelemetry_game processCarStatus_game processParticipant_game processSession_game
        mySessionId_result)+

section \<open>The readiness gate\<close>

lemma feed_Cons_Inr:
  "feed tracks g (pt # rest) = Inr g'' \<longleftrightarrow>
     (\<exists>g' js. process tracks g pt = Inr (g', js) \<and> feed tracks g' rest = Inr g'')"
  by (auto simp: and_then_Inr)

lemma feed_no_participants:
  "feed tracks g ps = Inr g' \<Longrightarrow> PARTICIPANTS \<notin> kinds ps \<Longrightarrow> drivers g = [] \<Longrightarrow> \<not> init g \<Longrightarrow>
     drivers g' = [] \<and> \<not> init g'"
proof (induction ps arbitrary: g)
  case Nil
  then show ?case by simp
next
  case (Cons pt ps)
  obtain pk t where pt: "pt = (pk, t)" by (cases pt)
  from Cons.prems(1) obtain g1 js where
    st: "process tracks g (pk, t) = Inr (g1, js)" and rest: "feed tracks g1 ps = Inr g'"
    unfolding pt feed_Cons_Inr by blast
  from Cons.prems(2) have k: "packet_kind pk \<noteq> PARTICIPANTS" and ks: "PARTICIPANTS \<notin> kinds ps"
    by (auto simp: kinds_def pt)
  from process_state(1,3) [OF st] k Cons.prems(3,4) have "drivers g1 = []" "\<not> init g1"
    by auto
  with Cons.IH [OF rest ks] show ?case by simp
qed

lemma feed_no_session:
  "feed tracks g ps = Inr g' \<Longrightarrow> SESSION \<notin> kinds ps \<Longrightarrow> sessionID g = None \<Longrightarrow> \<not> init g \<Longrightarrow>
     sessionID g' = None \<and> \<not> init g'"
proof (induction ps arbitrary: g)
  case Nil
  then show ?case by simp
next
  case (Cons pt ps)
  obtain pk t where pt: "pt = (pk, t)" by (cases pt)
  from Cons.prems(1) obtain g1 js where
    st: "process tracks g (pk, t) = Inr (g1, js)" and rest: "feed tracks g1 ps = Inr g'"
    unfolding pt feed_Cons_Inr by blast
  from Cons.prems(2) have k: "packet_kind pk \<noteq> SESSION" and ks: "SESSION \<notin> kinds ps"
    by (auto simp: kinds_def pt)
  from process_state(2,3) [OF st] k Cons.prems(3,4) have "sessionID g1 = None" "\<not> init g1"
    by auto
  with Cons.IH [OF rest ks] show ?case by simp
qed

lemma feed_init: "feed tracks g ps = Inr g' \<Longrightarrow> init g \<Longrightarrow> init g'"
proof (induction ps arbitrary: g)
  case Nil
  then show ?case by simp
next
  case (Cons pt ps)
  obtain pk t where pt: "pt = (pk, t)" by (cases pt)
  from Cons.prems(1) obtain g1 js where
    st: "process tracks g (pk, t) = Inr (g1, js)" and rest: "feed tracks g1 ps = Inr g'"
    unfolding pt feed_Cons_Inr by blast
  from process_state(4) [OF st] Cons.prems(2) have "init g1" by simp
  with Cons.IH [OF rest] show ?case by simp
qed

text \<open>
  Claim C2. Feed the tracker any sequence of packets from its initial state. If the
  sequence holds no PARTICIPANTS packet or holds no SESSION packet, then in the state
  reached \<open>processMotion\<close>, \<open>processLap\<close>, \<open>processEvent\<close>, \<open>processCarSetup\<close>,
  \<open>processCarStatus\<close> and \<open>processCarTelemetry\<close> return the empty list for every packet
  and timestamp, and leave the state as it is.
\<close>

theorem unready_methods_return_nothing:
  assumes "feed tracks Game_init ps = Inr g"
    and "PARTICIPANTS \<notin> kinds ps \<or> SESSION \<notin> kinds ps"
  shows "(\<forall>p t. processMotion g p t = Inr (g, [])) \<and>
         (\<forall>p t. processLap g p t = Inr (g, [])) \<and>
         (\<forall>p t. processEvent g p t = Inr (g, [])) \<and>
         (\<forall>p t. processCarSetup g p t = Inr (g, [])) \<and>
         (\<forall>p t. processCarStatus g p t = Inr (g, [])) \<and>
         (\<forall>p t. processCarTelemetry g p t = Inr (g, []))"
proof -
  have "\<not> init g \<and> (drivers g = [] \<or> sessionID g = None)"
    using assms feed_no_participants [of tracks Game_init ps g]
      feed_no_session [of tracks Game_init ps g]
    by (auto simp: Game_init_def)
  then have "IsInitialized g = (g, False)"
    by (simp add: IsInitialized_not_ready)
  then show ?thesis
    by (simp add: processMotion_def processLap_def processEvent_def processCarSetup_def
        processCarStatus_def processCarTelemetry_def)
qed

lemma session_identity_t0: "session_identity t0 ''Melbourne'' 0 = ''20200101_1200_Melbourne_0''"
  by (simp add: session_identity_def strftime_minute_def t0_def pad4_def pad2_def digit_def
      str_nat.simps)

lemma feed_session_ex: "feed tracks0 Game_init [(Session (session_ex 1), t0)] = Inr g_session"
  by (simp add: process_def processSession_def mySessionId_def Game_init_def session_ex_def
      hdr_def tracks0_def session_identity_t0 IsInitialized_def g_session_def)

theorem unready_methods_return_nothing_witness:
  "feed tracks0 Game_init [(Session (session_ex 1), t0)] = Inr g_session \<and>
   PARTICIPANTS \<notin> kinds [(Session (session_ex 1), t0)] \<and>
   (\<forall>p t. processMotion g_session p t = Inr (g_session, [])) \<and>
   (\<forall>p t. processLap g_session p t = Inr (g_session, [])) \<and>
   (\<forall>p t. processEvent g_session p t = Inr (g_session, [])) \<and>
   (\<forall>p t. processCarSetup g_session p t = Inr (g_session, [])) \<and>
   (\<forall>p t. processCarStatus g_session p t = Inr (g_session, [])) \<and>
   (\<forall>p t. processCarTelemetry g_session p t = Inr (g_session, []))"
proof -
  have k: "PARTICIPANTS \<notin> kinds [(Session (session_ex 1), t0)]"
    by (simp add: kinds_def)
  from unready_methods_return_nothing [OF feed_session_ex disjI1 [OF k]] feed_session_ex k
  show ?thesis by blast
qed

text \<open>
  Claim C3. Once \<open>IsInitialized\<close> has returned true, it returns true after any further
  sequence of packets, whatever they do to the roster and the session identity; the
  example is a PARTICIPANTS packet with no active car, which empties the roster.
\<close>

theorem readiness_is_monotone:
  assumes "snd (IsInitialized g)"
    and "feed tracks (fst (IsInitialized g)) ps = Inr g'"
  shows "IsInitialized g' = (g', True)"
proof -
  from assms(1) have "init (fst (IsInitialized g))"
    by (simp add: IsInitialized_fields(4))
  with assms(2) have "init g'"
    by (rule feed_init)
  then show ?thesis
    by (rule IsInitialized_ready)
qed

lemma feed_empty_roster:
  "feed tracks0 (fst (IsInitialized ready_game)) [(Participants (participants_ex 0), t1)] = Inr g_empty_roster"
  by (simp add: process_def processParticipant_def IsInitialized_def ready_game_def
      participants_ex_def delitem_def g_empty_roster_def)

theorem readiness_is_monotone_witness:
  "snd (IsInitialized ready_game) \<and>
   feed tracks0 (fst (IsInitialized ready_game)) [(Participants (participants_ex 0), t1)]
     = Inr g_empty_roster \<and>
   drivers g_empty_roster = [] \<and>
   IsInitialized g_empty_roster = (g_empty_roster, True)"
proof -
  have r: "snd (IsInitialized ready_game)"
    by (simp add: IsInitialized_def ready_game_def)
  have d: "drivers g_empty_roster = []"
    by (simp add: g_empty_roster_def)
  from readiness_is_monotone [OF r feed_empty_roster] r feed_empty_roster d
  show ?thesis by blast
qed

section \<open>Datagrams that are too short\<close>

lemma assign_core:
  "core st = core st' \<Longrightarrow> map_sum id core (assign st k r) = map_sum id core (assign st' k r)"
  by (cases r) (auto simp: assign_def core_def)

lemma dispatch_core:
  assumes "core st = core st'"
  shows "map_sum id core (dispatch tracks st pid u ts) = map_sum id core (dispatch tracks st' pid u ts)"
proof -
  from assms have g: "game st = game st'" by (simp add: core_def)
  show ?thesis
    unfolding dispatch_def g
    by (simp add: assign_core [OF assms] assms split: packet.splits)
qed

lemma packet_step_core:
  assumes "core st = core st'"
  shows "map_sum id core (packet_step lib tracks st tp) = map_sum id core (packet_step lib tracks st' tp)"
  using assms dispatch_core [OF assms]
  by (auto simp: packet_step_def Let_def core_def split: prod.splits option.splits)

lemma packets_loop_core:
  "core st = core st' \<Longrightarrow>
   map_sum id core (packets_loop lib tracks st ds) = map_sum id core (packets_loop lib tracks st' ds)"
proof (induction ds arbitrary: st st')
  case Nil
  then show ?case by simp
next
  case (Cons d ds)
  show ?case
  proof (cases "packet_step lib tracks st d")
    case (Inl e)
    with packet_step_core [OF Cons.prems, of lib tracks d] show ?thesis
      by (cases "packet_step lib tracks st' d") auto
  next
    case (Inr s)
    with packet_step_core [OF Cons.prems, of lib tracks d]
    obtain s' where s': "packet_step lib tracks st' d = Inr s'" "core s = core s'"
      by (cases "packet_step lib tracks st' d") auto
    with Inr Cons.IH [OF s'(2)] show ?thesis by simp
  qed
qed

lemma header0_datagram:
  "pid < 256 \<Longrightarrow> uid < 256 \<Longrightarrow> header0 (datagram pid uid payload) = hdr pid (of_nat uid)"
  by (simp add: header0_def datagram_def hdr_def nth_append)

lemma length_datagram: "length (datagram pid uid payload) = 23 + length payload"
  by (simp add: datagram_def)

lemma motion_step:
  "\<not> init g \<Longrightarrow> drivers g = [] \<Longrightarrow>
   packet_step lib0 tracks0 \<lparr>game = g, jsonMessages = jm, effects = es\<rparr> (t, motion_datagram) =
     Inr \<lparr>game = g, jsonMessages = AList.update MOTION [] jm, effects = es\<rparr>"
  by (simp add: packet_step_def lib0_def motion_datagram_def length_datagram header0_datagram
      hdr_def table0_def Let_def dispatch_def unpack0_def assign_def processMotion_def
      IsInitialized_not_ready)

text \<open>
  Claim C8. A datagram shorter than the header structure is dropped: the step appends one
  rejection to the log and changes neither the tracker nor the batches; the loop goes on
  with the remaining datagrams from that state; and the tracker and the batches at the
  end of the flush are those of the flush without the short datagram.
\<close>

theorem short_datagram_dropped:
  assumes "length packet < sizeof_PacketHeader lib"
  shows "packet_step lib tracks st (timestamp, packet) =
           Inr (st\<lparr>effects := effects st @ [Dropped_too_short (length packet)]\<rparr>) \<and>
         packets_loop lib tracks st ((timestamp, packet) # rest) =
           packets_loop lib tracks
             (st\<lparr>effects := effects st @ [Dropped_too_short (length packet)]\<rparr>) rest \<and>
         map_sum id (\<lambda>s. (game s, jsonMessages s))
             (packets_loop lib tracks st ((timestamp, packet) # rest)) =
           map_sum id (\<lambda>s. (game s, jsonMessages s)) (packets_loop lib tracks st rest)"
proof -
  let ?st = "st\<lparr>effects := effects st @ [Dropped_too_short (length packet)]\<rparr>"
  have step: "packet_step lib tracks st (timestamp, packet) = Inr ?st"
    using assms by (simp add: packet_step_def)
  then have loop: "packets_loop lib tracks st ((timestamp, packet) # rest) =
      packets_loop lib tracks ?st rest"
    by simp
  have "core ?st = core st" by (simp add: core_def)
  from packets_loop_core [OF this, of lib tracks rest] loop
  have "map_sum id core (packets_loop lib tracks st ((timestamp, packet) # rest)) =
        map_sum id core (packets_loop lib tracks st rest)"
    by simp
  then have "map_sum id (\<lambda>s. (game s, jsonMessages s))
        (packets_loop lib tracks st ((timestamp, packet) # rest)) =
      map_sum id (\<lambda>s. (game s, jsonMessages s)) (packets_loop lib tracks st rest)"
    by (simp add: core_def [abs_def])
  with step loop show ?thesis by blast
qed

theorem short_datagram_dropped_witness:
  "length short_datagram < sizeof_PacketHeader lib0 \<and>
   packet_step lib0 tracks0 (loop_init Game_init) (t0, short_datagram) =
     Inr \<lparr>game = Game_init, jsonMessages = [], effects = [Dropped_too_short 22]\<rparr> \<and>
   packets_loop lib0 tracks0 (loop_init Game_init) [(t0, short_datagram), (t1, motion_datagram)] =
     Inr \<lparr>game = Game_init, jsonMessages = [(MOTION, [])], effects = [Dropped_too_short 22]\<rparr>"
proof -
  have h: "length short_datagram < sizeof_PacketHeader lib0"
    by (simp add: short_datagram_def lib0_def)
  have u: "(loop_init Game_init)\<lparr>effects := effects (loop_init Game_init) @
        [Dropped_too_short (length short_datagram)]\<rparr> =
      \<lparr>game = Game_init, jsonMessages = [], effects = [Dropped_too_short 22]\<rparr>"
    by (simp add: loop_init_def short_datagram_def)
  have m: "packets_loop lib0 tracks0
        \<lparr>game = Game_init, jsonMessages = [], effects = [Dropped_too_short 22]\<rparr>
        [(t1, motion_datagram)] =
      Inr \<lparr>game = Game_init, jsonMessages = [(MOTION, [])], effects = [Dropped_too_short 22]\<rparr>"
    by (simp add: motion_step Game_init_def)
  from short_datagram_dropped [OF h, of tracks0 "loop_init Game_init" t0 "[(t1, motion_datagram)]"]
  show ?thesis
    unfolding u using h m by simp
qed

section \<open>The inactivity timer of the flush loop\<close>

lemma short_flush:
  "process_incoming_packets lib0 tracks0 g [(t, short_datagram)] =
     Inr (g, [Dropped_too_short 22, Printed_count 0, Recorded 1])"
  by (simp add: process_incoming_packets_def packet_step_def short_datagram_def lib0_def)

lemma sub_t1_t0: "datetime_sub t1 t0 = 10000000"
  by (simp add: datetime_sub_def to_microseconds_def toordinal_def t0_def t1_def)

lemma sub_t2_t1: "datetime_sub t2 t1 = 10000000"
  by (simp add: datetime_sub_def to_microseconds_def toordinal_def t2_def t1_def)

lemma sub_t2_t0: "datetime_sub t2 t0 = 20000000"
  by (simp add: datetime_sub_def to_microseconds_def toordinal_def t2_def t0_def)

text \<open>
  Claim C9 says that every empty tick reports the time since the previous non-empty drain
  and that consecutive empty ticks report a growing time measured from that drain. The
  \<^verbatim>\<open>else\<close> branch ends with \<^verbatim>\<open>inactivity_timer = t_now\<close>: after a drain whose last
  datagram arrived at 12:00:05, the empty ticks at 12:00:15 and 12:00:25 both report ten
  seconds, although the second is twenty seconds after the drain.
\<close>

theorem consecutive_empty_ticks_counterexample:
  "run lib0 tracks0 (t0, Game_init) [(t0, [(t0, short_datagram)]), (t1, []), (t2, [])] =
     Inr ((t2, Game_init),
          [[Dropped_too_short 22, Printed_count 0, Recorded 1],
           [No_packets_received 10000000],
           [No_packets_received 10000000]]) \<and>
   datetime_sub t2 t0 = 20000000"
  by (simp add: run_iteration_def short_flush sub_t1_t0 sub_t2_t1 sub_t2_t0)

text \<open>
  Claim C9, amended. An empty tick makes no sink write and reports one inactivity
  observation whose argument is the clock reading minus the inactivity timer, and sets
  the timer to that reading; so of two consecutive empty ticks the second reports the
  time since the first. A non-empty drain sets the timer to the arrival timestamp of its
  last datagram.
\<close>

theorem empty_tick_reports_time_since_timer:
  "run_iteration lib tracks (timer, g) (t_now, []) =
     Inr ((t_now, g), [No_packets_received (datetime_sub t_now timer)]) \<and>
   run lib tracks (timer, g) [(ta, []), (tb, [])] =
     Inr ((tb, g), [[No_packets_received (datetime_sub ta timer)],
                    [No_packets_received (datetime_sub tb ta)]]) \<and>
   (packets \<noteq> [] \<longrightarrow> run_iteration lib tracks (timer, g) (t_now, packets) = Inr (s', out) \<longrightarrow>
      fst s' = fst (last packets))"
  by (auto simp: run_iteration_def and_then_Inr)

theorem empty_tick_reports_time_since_timer_witness:
  "[(t0, short_datagram)] \<noteq> [] \<and>
   run_iteration lib0 tracks0 (t2, Game_init) (t1, [(t0, short_datagram)]) =
     Inr ((t0, Game_init), [Dropped_too_short 22, Printed_count 0, Recorded 1]) \<and>
   fst (t0, Game_init) = fst (last [(t0, short_datagram)]) \<and>
   run_iteration lib0 tracks0 (t0, Game_init) (t1, []) =
     Inr ((t1, Game_init), [No_packets_received 10000000])"
proof -
  have r: "run_iteration lib0 tracks0 (t2, Game_init) (t1, [(t0, short_datagram)]) =
     Inr ((t0, Game_init), [Dropped_too_short 22, Printed_count 0, Recorded 1])"
    by (simp add: run_iteration_def short_flush)
  from empty_tick_reports_time_since_timer
    [of lib0 tracks0 t0 Game_init t1 t1 t2 "[(t0, short_datagram)]"]
  have e: "run_iteration lib0 tracks0 (t0, Game_init) (t1, []) =
     Inr ((t1, Game_init), [No_packets_received 10000000])"
    by (simp add: sub_t1_t0)
  from empty_tick_reports_time_since_timer
    [of lib0 tracks0 t2 Game_init t1 t1 t2 "[(t0, short_datagram)]" "(t0, Game_init)"
      "[Dropped_too_short 22, Printed_count 0, Recorded 1]"] r
  have "fst (t0, Game_init) = fst (last [(t0, short_datagram)])"
    by blast
  with r e show ?thesis by simp
qed

section \<open>The session identity\<close>

lemma digit_eq_iff: "digit a = digit b \<longleftrightarrow> a mod 10 = b mod 10"
proof -
  have d: "distinct ''0123456789''" by simp
  have "a mod 10 < length ''0123456789''" "b mod 10 < length ''0123456789''" by simp_all
  from nth_eq_iff_index_eq [OF d this] show ?thesis by (simp add: digit_def)
qed

lemma digit_in: "digit n \<in> set ''0123456789''"
proof -
  have "n mod 10 < length ''0123456789''" by simp
  then show ?thesis unfolding digit_def by (rule nth_mem)
qed

lemma str_nat_nonempty: "str_nat n \<noteq> []"
  by (subst str_nat.simps) simp

lemma str_nat_digits: "set (str_nat n) \<subseteq> set ''0123456789''"
proof (induction n rule: str_nat.induct)
  case (1 n)
  show ?case
  proof (cases "n < 10")
    case True
    then show ?thesis using digit_in [of n] by (subst str_nat.simps) simp
  next
    case False
    with 1 digit_in [of n] show ?thesis by (subst str_nat.simps) simp
  qed
qed

lemma str_nat_no_underscore: "CHR ''_'' \<notin> set (str_nat n)"
  using str_nat_digits [of n] by auto

lemma str_nat_inj: "str_nat n = str_nat m \<Longrightarrow> n = m"
proof (induction n arbitrary: m rule: str_nat.induct)
  case (1 n)
  show ?case
  proof (cases "n < 10")
    case n: True
    show ?thesis
    proof (cases "m < 10")
      case True
      with n 1(2) have "digit n = digit m" by (simp add: str_nat.simps)
      with n True show ?thesis by (simp add: digit_eq_iff)
    next
      case False
      with n 1(2) have "[digit n] = str_nat (m div 10) @ [digit m]"
        by (simp add: str_nat.simps [of n] str_nat.simps [of m])
      with str_nat_nonempty [of "m div 10"] show ?thesis by simp
    qed
  next
    case n: False
    show ?thesis
    proof (cases "m < 10")
      case True
      with n 1(2) have "str_nat (n div 10) @ [digit n] = [digit m]"
        by (simp add: str_nat.simps [of n] str_nat.simps [of m])
      with str_nat_nonempty [of "n div 10"] show ?thesis by simp
    next
      case False
      with n 1(2) have "str_nat (n div 10) @ [digit n] = str_nat (m div 10) @ [digit m]"
        by (simp add: str_nat.simps [of n] str_nat.simps [of m])
      then have "str_nat (n div 10) = str_nat (m div 10)" "digit n = digit m" by simp_all
      with 1(1) [OF n] have "n div 10 = m div 10" "n mod 10 = m mod 10"
        by (simp_all add: digit_eq_iff)
      then show ?thesis by (metis div_mult_mod_eq)
    qed
  qed
qed

lemma split_at_first:
  "c \<notin> set xs \<Longrightarrow> c \<notin> set xs' \<Longrightarrow> xs @ c # ys = xs' @ c # ys' \<Longrightarrow> xs = xs' \<and> ys = ys'"
proof (induction xs arbitrary: xs')
  case Nil
  then show ?case by (cases xs') auto
next
  case (Cons x xs)
  then show ?case by (cases xs') auto
qed

lemma split_at_last:
  assumes "c \<notin> set s" "c \<notin> set s'" "a @ c # s = a' @ c # s'"
  shows "a = a' \<and> s = s'"
proof -
  from assms(3) have "rev (a @ c # s) = rev (a' @ c # s')" by simp
  then have "rev s @ c # rev a = rev s' @ c # rev a'" by simp
  moreover from assms(1,2) have "c \<notin> set (rev s)" "c \<notin> set (rev s')" by simp_all
  ultimately have "rev s = rev s' \<and> rev a = rev a'"
    using split_at_first [of c "rev s" "rev s'" "rev a" "rev a'"] by blast
  then show ?thesis by simp
qed

lemma length_strftime_minute: "length (strftime_minute t) = 13"
  by (simp add: strftime_minute_def pad4_def pad2_def)

lemma session_identity_eq_iff:
  "session_identity t track f = session_identity t' track' f' \<longleftrightarrow>
     strftime_minute t = strftime_minute t' \<and> track = track' \<and> f = f'"
proof
  assume "session_identity t track f = session_identity t' track' f'"
  then have "strftime_minute t @ (''_'' @ track @ ''_'' @ str_nat f) =
      strftime_minute t' @ (''_'' @ track' @ ''_'' @ str_nat f')"
    by (simp add: session_identity_def)
  then have m: "strftime_minute t = strftime_minute t'"
    and r: "track @ CHR ''_'' # str_nat f = track' @ CHR ''_'' # str_nat f'"
    by (simp_all add: length_strftime_minute)
  from split_at_last [OF str_nat_no_underscore str_nat_no_underscore r]
  have "track = track'" "str_nat f = str_nat f'" by simp_all
  with m str_nat_inj show "strftime_minute t = strftime_minute t' \<and> track = track' \<and> f = f'"
    by blast
next
  assume "strftime_minute t = strftime_minute t' \<and> track = track' \<and> f = f'"
  then show "session_identity t track f = session_identity t' track' f'"
    by (simp add: session_identity_def)
qed

lemma session_identity_t1: "session_identity t1 ''Melbourne'' 0 = ''20200101_1200_Melbourne_0''"
  by (simp add: session_identity_def strftime_minute_def t1_def pad4_def pad2_def digit_def
      str_nat.simps)

text \<open>
  Claim C6 says that a SESSION packet with a different raw session id yields a new
  identity string. The string is made of the capture time to the minute, the track name
  and the formula code only: a packet with raw id 2 captured ten seconds after the packet
  with raw id 1, on the same track, gets the string the tracker already had.
\<close>

theorem new_raw_id_same_identity_counterexample:
  "mySessionId tracks0 Game_init (session_ex 1) t0 =
     Inr (g_session, Some ''20200101_1200_Melbourne_0'') \<and>
   sessionUID (header (session_ex 2)) \<noteq> sessionUID (header (session_ex 1)) \<and>
   mySessionId tracks0 g_session (session_ex 2) t1 =
     Inr (g_session2, Some ''20200101_1200_Melbourne_0'')"
  by (simp add: mySessionId_def Game_init_def session_ex_def hdr_def tracks0_def
      session_identity_t0 session_identity_t1 g_session_def g_session2_def)

text \<open>
  Claim C6, amended. \<open>mySessionId\<close> leaves the tracker as it is when the raw id of the
  packet is the stored one, so two consecutive SESSION packets with the same raw id yield
  the same string. When the raw id differs (and the track number is in the table) the raw
  id is stored and the identity becomes the string computed from the capture time, the
  track name and the formula of that packet. Two such strings are equal exactly when the
  minute stamp, the track name and the formula are equal.
\<close>

theorem session_identity_recomputed_on_new_raw_id:
  "(sessionIDBrut g = Some (sessionUID (header p)) \<longrightarrow>
      mySessionId tracks g p t = Inr (g, sessionID g)) \<and>
   (sessionIDBrut g \<noteq> Some (sessionUID (header p)) \<longrightarrow> tracks (trackId p) = Some track \<longrightarrow>
      mySessionId tracks g p t =
        Inr (g\<lparr>sessionIDBrut := Some (sessionUID (header p)),
               sessionID := Some (session_identity t track (m_formula p))\<rparr>,
             Some (session_identity t track (m_formula p)))) \<and>
   (mySessionId tracks g p t = Inr (g1, s1) \<longrightarrow>
      sessionUID (header p') = sessionUID (header p) \<longrightarrow>
      mySessionId tracks g1 p' t' = Inr (g1, s1)) \<and>
   (session_identity t track f = session_identity t' track' f' \<longleftrightarrow>
      strftime_minute t = strftime_minute t' \<and> track = track' \<and> f = f')"
proof -
  have a: "sessionIDBrut g = Some (sessionUID (header p)) \<longrightarrow>
      mySessionId tracks g p t = Inr (g, sessionID g)"
    by (simp add: mySessionId_def)
  have b: "sessionIDBrut g \<noteq> Some (sessionUID (header p)) \<longrightarrow> tracks (trackId p) = Some track \<longrightarrow>
      mySessionId tracks g p t =
        Inr (g\<lparr>sessionIDBrut := Some (sessionUID (header p)),
               sessionID := Some (session_identity t track (m_formula p))\<rparr>,
             Some (session_identity t track (m_formula p)))"
    by (auto simp: mySessionId_def Let_def)
  have c: "mySessionId tracks g p t = Inr (g1, s1) \<longrightarrow>
      sessionUID (header p') = sessionUID (header p) \<longrightarrow>
      mySessionId tracks g1 p' t' = Inr (g1, s1)"
  proof (intro impI)
    assume m: "mySessionId tracks g p t = Inr (g1, s1)"
      and u: "sessionUID (header p') = sessionUID (header p)"
    from m have "s1 = sessionID g1" "sessionIDBrut g1 = Some (sessionUID (header p))"
      by (auto simp: mySessionId_def Let_def split: if_splits option.splits)
    with u show "mySessionId tracks g1 p' t' = Inr (g1, s1)"
      by (simp add: mySessionId_def)
  qed
  from a b c session_identity_eq_iff show ?thesis by blast
qed

theorem session_identity_recomputed_on_new_raw_id_witness:
  "sessionIDBrut Game_init \<noteq> Some (sessionUID (header (session_ex 1))) \<and>
   tracks0 (trackId (session_ex 1)) = Some ''Melbourne'' \<and>
   mySessionId tracks0 Game_init (session_ex 1) t0 =
     Inr (g_session, Some ''20200101_1200_Melbourne_0'') \<and>
   sessionIDBrut g_session = Some (sessionUID (header (session_ex 1))) \<and>
   mySessionId tracks0 g_session (session_ex 1) t1 =
     Inr (g_session, Some ''20200101_1200_Melbourne_0'')"
proof -
  have h1: "sessionIDBrut Game_init \<noteq> Some (sessionUID (header (session_ex 1)))"
    by (simp add: Game_init_def)
  have h2: "tracks0 (trackId (session_ex 1)) = Some ''Melbourne''"
    by (simp add: tracks0_def session_ex_def)
  have g: "Game_init\<lparr>sessionIDBrut := Some (sessionUID (header (session_ex 1))),
        sessionID := Some ''20200101_1200_Melbourne_0''\<rparr> = g_session"
    by (simp add: Game_init_def g_session_def session_ex_def hdr_def)
  have s: "session_identity t0 ''Melbourne'' (m_formula (session_ex 1)) = ''20200101_1200_Melbourne_0''"
    by (simp add: session_ex_def session_identity_t0)
  note thm1 = session_identity_recomputed_on_new_raw_id
    [of Game_init "session_ex 1" tracks0 t0 "''Melbourne''" g_session
      "Some ''20200101_1200_Melbourne_0''" "session_ex 1" t1]
  from thm1 [THEN conjunct2, THEN conjunct1, rule_format, OF h1 h2]
  have m1: "mySessionId tracks0 Game_init (session_ex 1) t0 =
      Inr (g_session, Some ''20200101_1200_Melbourne_0'')"
    unfolding s g .
  from thm1 [THEN conjunct2, THEN conjunct2, THEN conjunct1, rule_format, OF m1 refl]
  have m2: "mySessionId tracks0 g_session (session_ex 1) t1 =
      Inr (g_session, Some ''20200101_1200_Melbourne_0'')" .
  have h3: "sessionIDBrut g_session = Some (sessionUID (header (session_ex 1)))"
    by (simp add: g_session_def session_ex_def hdr_def)
  from h1 h2 m1 h3 m2 show ?thesis by (intro conjI)
qed

section \<open>Participants packets\<close>

lemma idx_Inr: "i < length xs \<Longrightarrow> idx xs i = Inr (xs ! i)"
  by (simp add: idx_def)

lemma take_drop_Suc: "i < length xs \<Longrightarrow> take (Suc n) (drop i xs) = xs ! i # take n (drop (Suc i) xs)"
  by (simp add: Cons_nth_drop_Suc [symmetric])

lemma participant_loop_ok:
  "i + n \<le> length ps \<Longrightarrow> list_all decodable (take n (drop i ps)) \<Longrightarrow>
   \<exists>h'. participant_loop t ps i n (ds, h, json) =
       Inr (ds @ map name (take n (drop i ps)), h',
            json @ map (participant_point t) (take n (drop i ps)))
     \<and> length h' = length h"
proof (induction n arbitrary: i ds h json)
  case 0
  then show ?case by simp
next
  case (Suc n)
  from Suc.prems(1) have i: "i < length ps" and le: "Suc i + n \<le> length ps" by simp_all
  from Suc.prems(2) i have d: "decodable (ps ! i)" and rest: "list_all decodable (take n (drop (Suc i) ps))"
    by (simp_all add: take_drop_Suc)
  from d have dec: "decode (name (ps ! i)) = Inr (name (ps ! i))"
    by (simp add: decode_def decodable_def)
  from Suc.IH [OF le rest, of "ds @ [name (ps ! i)]"
      "h[0 := setitem ''driver'' (VStr (name (ps ! i))) (h ! 0)]"
      "json @ [participant_point t (ps ! i)]"]
  show ?case
    by (simp add: idx_Inr [OF i] dec take_drop_Suc [OF i] participant_point_def)
qed

lemma roster_loop_ok:
  "i + n \<le> length ps \<Longrightarrow> list_all decodable (take n (drop i ps)) \<Longrightarrow>
   roster_loop ps i n ds = Inr (ds @ map name (take n (drop i ps)))"
proof (induction n arbitrary: i ds)
  case 0
  then show ?case by simp
next
  case (Suc n)
  from Suc.prems(1) have i: "i < length ps" and le: "Suc i + n \<le> length ps" by simp_all
  from Suc.prems(2) i have d: "decodable (ps ! i)" and rest: "list_all decodable (take n (drop (Suc i) ps))"
    by (simp_all add: take_drop_Suc)
  from d have dec: "decode (name (ps ! i)) = Inr (name (ps ! i))"
    by (simp add: decode_def decodable_def)
  from Suc.IH [OF le rest, of "ds @ [name (ps ! i)]"]
  show ?case
    by (simp add: idx_Inr [OF i] dec take_drop_Suc [OF i])
qed

lemma delitem_Inr: "k \<in> fst ` set d \<Longrightarrow> delitem k d = Inr (AList.delete k d)"
  by (simp add: delitem_def)

text \<open>
  Count, roster and field sets of a PARTICIPANTS packet. On a Ready tracker, a packet with
  \<open>numActiveCars = k\<close> (at most the length of its participants array, with names that
  decode and the \<open>header\<close> key in its field dictionary) makes \<open>processParticipant\<close>
  return exactly \<open>k\<close> points and leave a roster of length \<open>k\<close>; roster entry \<open>i\<close> is the
  name of participant slot \<open>i\<close> and point \<open>i\<close> carries the fields of participant slot \<open>i\<close>
  with that name. The tags of the points are the subject of claim C4's theorem below.
\<close>

theorem participants_yield_one_record_per_active_car:
  assumes "snd (IsInitialized g)"
    and "numActiveCars p \<le> length (participants p)"
    and "list_all decodable (take (numActiveCars p) (participants p))"
    and "''header'' \<in> fst ` set (fields_dict p)"
  shows "\<exists>g' recs. processParticipant g p t = Inr (g', recs) \<and>
           length recs = numActiveCars p \<and>
           length (drivers g') = numActiveCars p \<and>
           (\<forall>i < numActiveCars p.
              drivers g' ! i = name (participants p ! i) \<and>
              measurement (recs ! i) = ''ParticipantData'' \<and>
              point_fields (recs ! i) =
                setitem ''name'' (VStr (name (participants p ! i))) (fields_dict (participants p ! i)))"
proof -
  let ?k = "numActiveCars p"
  from assms(1) obtain g1 where r: "IsInitialized g = (g1, True)"
    by (cases "IsInitialized g") simp
  from participant_loop_ok [of 0 ?k "participants p" t "[]" "[base_tags g1 (header p)]" "[]"]
    assms(2,3)
  obtain h' where loop: "participant_loop t (participants p) 0 ?k ([], [base_tags g1 (header p)], []) =
      Inr (map name (take ?k (participants p)), h', map (participant_point t) (take ?k (participants p)))"
    by auto
  let ?recs = "map (deref h') (map (participant_point t) (take ?k (participants p)))"
  let ?g' = "g1\<lparr>drivers := map name (take ?k (participants p))\<rparr>"
  have res: "processParticipant g p t = Inr (?g', ?recs)"
    by (simp add: processParticipant_def r delitem_Inr [OF assms(4)] loop)
  have len: "length ?recs = ?k" "length (drivers ?g') = ?k"
    using assms(2) by simp_all
  have each: "\<forall>i < ?k. drivers ?g' ! i = name (participants p ! i) \<and>
              measurement (?recs ! i) = ''ParticipantData'' \<and>
              point_fields (?recs ! i) =
                setitem ''name'' (VStr (name (participants p ! i))) (fields_dict (participants p ! i))"
    using assms(2) by (simp add: deref_def participant_point_def)
  show ?thesis
    by (rule exI [of _ ?g'], rule exI [of _ ?recs]) (intro conjI res len each)
qed

lemma decodable_ex: "decodable (participant_ex ''HAMILTON'')" "decodable (participant_ex ''VETTEL'')"
  by (simp_all add: decodable_def participant_ex_def)

theorem participants_yield_one_record_per_active_car_witness:
  "snd (IsInitialized ready_game) \<and>
   numActiveCars (participants_ex 2) \<le> length (participants (participants_ex 2)) \<and>
   list_all decodable (take (numActiveCars (participants_ex 2)) (participants (participants_ex 2))) \<and>
   ''header'' \<in> fst ` set (fields_dict (participants_ex 2)) \<and>
   (\<exists>g' recs. processParticipant ready_game (participants_ex 2) t1 = Inr (g', recs) \<and>
      length recs = 2 \<and> drivers g' = [''HAMILTON'', ''VETTEL''] \<and>
      map point_fields recs =
        [[(''aiControlled'', VInt 1), (''name'', VStr ''HAMILTON'')],
         [(''aiControlled'', VInt 1), (''name'', VStr ''VETTEL'')]])"
proof -
  have h1: "snd (IsInitialized ready_game)"
    by (simp add: IsInitialized_def ready_game_def)
  have h2: "numActiveCars (participants_ex 2) \<le> length (participants (participants_ex 2))"
    by (simp add: participants_ex_def)
  have h3: "list_all decodable (take (numActiveCars (participants_ex 2)) (participants (participants_ex 2)))"
    by (simp add: participants_ex_def decodable_ex numeral_2_eq_2)
  have h4: "''header'' \<in> fst ` set (fields_dict (participants_ex 2))"
    by (simp add: participants_ex_def)
  from participants_yield_one_record_per_active_car [OF h1 h2 h3 h4, of t1]
  obtain g' recs where p: "processParticipant ready_game (participants_ex 2) t1 = Inr (g', recs)"
    and l: "length recs = 2" "length (drivers g') = 2"
    and e: "\<forall>i < 2. drivers g' ! i = name (participants (participants_ex 2) ! i) \<and>
              measurement (recs ! i) = ''ParticipantData'' \<and>
              point_fields (recs ! i) =
                setitem ''name'' (VStr (name (participants (participants_ex 2) ! i)))
                  (fields_dict (participants (participants_ex 2) ! i))"
    by (auto simp: participants_ex_def)
  from e have e0: "drivers g' ! 0 = ''HAMILTON''" "point_fields (recs ! 0) = [(''aiControlled'', VInt 1), (''name'', VStr ''HAMILTON'')]"
    and e1: "drivers g' ! 1 = ''VETTEL''" "point_fields (recs ! 1) = [(''aiControlled'', VInt 1), (''name'', VStr ''VETTEL'')]"
    by (simp_all add: participants_ex_def participant_ex_def setitem_def)
  from l(2) e0(1) e1(1) have d: "drivers g' = [''HAMILTON'', ''VETTEL'']"
    by (cases "drivers g'"; simp; cases "tl (drivers g')"; simp)
  from l(1) e0(2) e1(2) have f: "map point_fields recs =
        [[(''aiControlled'', VInt 1), (''name'', VStr ''HAMILTON'')],
         [(''aiControlled'', VInt 1), (''name'', VStr ''VETTEL'')]]"
    by (cases recs; simp; cases "tl recs"; simp)
  have "\<exists>g' recs. processParticipant ready_game (participants_ex 2) t1 = Inr (g', recs) \<and>
      length recs = 2 \<and> drivers g' = [''HAMILTON'', ''VETTEL''] \<and>
      map point_fields recs =
        [[(''aiControlled'', VInt 1), (''name'', VStr ''HAMILTON'')],
         [(''aiControlled'', VInt 1), (''name'', VStr ''VETTEL'')]]"
    by (rule exI [of _ g'], rule exI [of _ recs]) (intro conjI p l(1) d f)
  with h1 h2 h3 h4 show ?thesis by (intro conjI)
qed

section \<open>Car telemetry\<close>

lemma idx4_Inr: "length a = 4 \<Longrightarrow> idx4 a = Inr (a ! 0, a ! 1, a ! 2, a ! 3)"
  by (simp add: idx4_def idx_def)

lemma keys_setitem: "fst ` set (setitem k v d) = insert k (fst ` set d)"
  by (simp add: setitem_def dom_update)

lemma map_of_setitem: "map_of (setitem k v d) = (map_of d)(k \<mapsto> v)"
  by (simp add: setitem_def update_conv')

lemma map_of_set_wheels:
  "map_of (set_wheels q (v0, v1, v2, v3) d) =
     (map_of d)(q @ ''_RL'' \<mapsto> v0, q @ ''_RR'' \<mapsto> v1, q @ ''_FL'' \<mapsto> v2, q @ ''_FR'' \<mapsto> v3)"
  by (simp add: set_wheels_def map_of_setitem)

lemma present_set_wheels: "k \<in> fst ` set d \<Longrightarrow> k \<in> fst ` set (set_wheels q w d)"
  by (cases w) (simp add: set_wheels_def keys_setitem)

lemma keys_delete: "fst ` set (AList.delete k d) = fst ` set d - {k}"
  by (induction d) auto

lemma present_delete: "k \<in> fst ` set d \<Longrightarrow> k \<noteq> k' \<Longrightarrow> k \<in> fst ` set (AList.delete k' d)"
  by (simp add: keys_delete)

lemma wheel_vals_set_same: "wheel_vals (set_wheels q (a ! 0, a ! 1, a ! 2, a ! 3) d) q a"
  by (simp add: wheel_vals_def map_of_set_wheels)

lemma wheel_vals_set_other:
  "wheel_vals d q a \<Longrightarrow> set (wheel_keys q) \<inter> set (wheel_keys q') = {} \<Longrightarrow>
   wheel_vals (set_wheels q' w d) q a"
  by (cases w) (auto simp: wheel_vals_def map_of_set_wheels wheel_keys_def)

lemma wheel_vals_delete:
  "wheel_vals d q a \<Longrightarrow> k \<notin> set (wheel_keys q) \<Longrightarrow> wheel_vals (AList.delete k d) q a"
  by (auto simp: wheel_vals_def wheel_keys_def)

lemma absent_delete_same: "map_of (AList.delete k d) k = None"
  by (simp add: delete_conv')

lemma absent_delete_other: "map_of d k = None \<Longrightarrow> map_of (AList.delete k' d) k = None"
  by (simp add: delete_conv')

lemma telemetry_fields_ok:
  assumes "sized_telemetry c" "has_array_keys c"
  shows "\<exists>fs. telemetry_fields c = Inr fs \<and> expanded c fs"
proof -
  let ?w1 = "(brakesTemperature c ! 0, brakesTemperature c ! 1, brakesTemperature c ! 2, brakesTemperature c ! 3)"
  let ?w2 = "(tyresSurfaceTemperature c ! 0, tyresSurfaceTemperature c ! 1, tyresSurfaceTemperature c ! 2, tyresSurfaceTemperature c ! 3)"
  let ?w3 = "(tyresInnerTemperature c ! 0, tyresInnerTemperature c ! 1, tyresInnerTemperature c ! 2, tyresInnerTemperature c ! 3)"
  let ?w4 = "(tyresPressure c ! 0, tyresPressure c ! 1, tyresPressure c ! 2, tyresPressure c ! 3)"
  let ?w5 = "(surfaceType c ! 0, surfaceType c ! 1, surfaceType c ! 2, surfaceType c ! 3)"
  let ?f0 = "set_wheels ''surfaceType'' ?w5 (set_wheels ''tyresPressure'' ?w4
                  (set_wheels ''tyresInnerTemperature'' ?w3
                    (set_wheels ''tyresSurfaceTemperature'' ?w2
                      (set_wheels ''brakesTemperature'' ?w1 (fields_dict c)))))"
  let ?f1 = "AList.delete ''surfaceType'' ?f0"
  let ?f2 = "AList.delete ''tyresPressure'' ?f1"
  let ?f3 = "AList.delete ''tyresInnerTemperature'' ?f2"
  let ?f4 = "AList.delete ''tyresSurfaceTemperature'' ?f3"
  let ?fs = "AList.delete ''brakesTemperature'' ?f4"
  from assms(2) have keys: "''surfaceType'' \<in> fst ` set (fields_dict c)"
     "''tyresPressure'' \<in> fst ` set (fields_dict c)"
     "''tyresInnerTemperature'' \<in> fst ` set (fields_dict c)"
     "''tyresSurfaceTemperature'' \<in> fst ` set (fields_dict c)"
     "''brakesTemperature'' \<in> fst ` set (fields_dict c)"
    by (simp_all add: has_array_keys_def)
  have d1: "delitem ''surfaceType'' ?f0 = Inr ?f1"
    by (intro delitem_Inr present_set_wheels keys)
  have d2: "delitem ''tyresPressure'' ?f1 = Inr ?f2"
    by (intro delitem_Inr present_delete present_set_wheels keys) simp_all
  have d3: "delitem ''tyresInnerTemperature'' ?f2 = Inr ?f3"
    by (intro delitem_Inr present_delete present_set_wheels keys) simp_all
  have d4: "delitem ''tyresSurfaceTemperature'' ?f3 = Inr ?f4"
    by (intro delitem_Inr present_delete present_set_wheels keys) simp_all
  have d5: "delitem ''brakesTemperature'' ?f4 = Inr ?fs"
    by (intro delitem_Inr present_delete present_set_wheels keys) simp_all
  from assms(1) have l: "length (brakesTemperature c) = 4" "length (tyresSurfaceTemperature c) = 4"
      "length (tyresInnerTemperature c) = 4" "length (tyresPressure c) = 4"
      "length (surfaceType c) = 4"
    by (simp_all add: sized_telemetry_def)
  have res: "telemetry_fields c = Inr ?fs"
    unfolding telemetry_fields_def
    by (simp only: l [THEN idx4_Inr] and_then_simps d1 d2 d3 d4 d5)
  have v1: "wheel_vals ?fs ''brakesTemperature'' (brakesTemperature c)"
    by (intro wheel_vals_set_same wheel_vals_delete wheel_vals_set_other)
       (simp_all add: wheel_keys_def)
  have v2: "wheel_vals ?fs ''tyresSurfaceTemperature'' (tyresSurfaceTemperature c)"
    by (intro wheel_vals_set_same wheel_vals_delete wheel_vals_set_other)
       (simp_all add: wheel_keys_def)
  have v3: "wheel_vals ?fs ''tyresInnerTemperature'' (tyresInnerTemperature c)"
    by (intro wheel_vals_set_same wheel_vals_delete wheel_vals_set_other)
       (simp_all add: wheel_keys_def)
  have v4: "wheel_vals ?fs ''tyresPressure'' (tyresPressure c)"
    by (intro wheel_vals_set_same wheel_vals_delete wheel_vals_set_other)
       (simp_all add: wheel_keys_def)
  have v5: "wheel_vals ?fs ''surfaceType'' (surfaceType c)"
    by (intro wheel_vals_set_same wheel_vals_delete wheel_vals_set_other)
       (simp_all add: wheel_keys_def)
  have a1: "map_of ?fs ''brakesTemperature'' = None"
    by (rule absent_delete_same)
  have a2: "map_of ?fs ''tyresSurfaceTemperature'' = None"
    by (intro absent_delete_same absent_delete_other)
  have a3: "map_of ?fs ''tyresInnerTemperature'' = None"
    by (intro absent_delete_same absent_delete_other)
  have a4: "map_of ?fs ''tyresPressure'' = None"
    by (intro absent_delete_same absent_delete_other)
  have a5: "map_of ?fs ''surfaceType'' = None"
    by (intro absent_delete_same absent_delete_other)
  have "expanded c ?fs"
    unfolding expanded_def wheels_of_def
    by (intro conjI v1 v2 v3 v4 v5 a1 a2 a3 a4 a5)
  with res show ?thesis by (intro exI conjI)
qed

lemma for_drivers_Inr:
  assumes "\<And>j. j < length ds \<Longrightarrow> \<exists>pt. body (i + j) (ds ! j) = Inr pt \<and> P (i + j) pt"
  shows "\<exists>pts. for_drivers body i ds = Inr pts \<and> length pts = length ds \<and>
           (\<forall>j < length ds. P (i + j) (pts ! j))"
  using assms
proof (induction ds arbitrary: i)
  case Nil
  then show ?case by simp
next
  case (Cons d ds)
  from Cons.prems [of 0] obtain pt where pt: "body i d = Inr pt" "P i pt" by auto
  have "\<And>j. j < length ds \<Longrightarrow> \<exists>pt. body (Suc i + j) (ds ! j) = Inr pt \<and> P (Suc i + j) pt"
    using Cons.prems [of "Suc j" for j] by simp
  from Cons.IH [OF this] obtain pts where pts: "for_drivers body (Suc i) ds = Inr pts"
    "length pts = length ds" "\<forall>j < length ds. P (Suc i + j) (pts ! j)"
    by blast
  have "\<forall>j < length (d # ds). P (i + j) ((pt # pts) ! j)"
  proof (intro allI impI)
    fix j assume "j < length (d # ds)"
    then show "P (i + j) ((pt # pts) ! j)"
      using pt(2) pts(3) by (cases j) simp_all
  qed
  with pt(1) pts(1,2) show ?case by simp
qed

text \<open>
  Claim C7. On a Ready tracker, for a CAR_TELEMETRY packet that has an entry for every
  roster position, whose entries have four-element wheel arrays and a field dictionary
  holding the five array keys, \<open>processCarTelemetry\<close> returns one point per driver, and in
  the field set of point \<open>i\<close> the keys \<open>tyresPressure_RL\<close>, \<open>_RR\<close>, \<open>_FL\<close>, \<open>_FR\<close> hold
  elements 0, 1, 2, 3 of the \<open>tyresPressure\<close> array of car \<open>i\<close> and the key
  \<open>tyresPressure\<close> is absent; the same holds for brake temperature, tyre surface
  temperature, tyre inner temperature and surface type.
\<close>

theorem telemetry_wheel_arrays_expanded:
  assumes "snd (IsInitialized g)"
    and "length (drivers g) \<le> length (carTelemetryData p)"
    and "list_all telemetry_car_ok (carTelemetryData p)"
  shows "\<exists>g' recs. processCarTelemetry g p t = Inr (g', recs) \<and>
           length recs = length (drivers g) \<and>
           (\<forall>i < length (drivers g).
              measurement (recs ! i) = ''CarTelemetryData'' \<and>
              expanded (carTelemetryData p ! i) (point_fields (recs ! i)))"
proof -
  from assms(1) obtain g1 where r: "IsInitialized g = (g1, True)"
    by (cases "IsInitialized g") simp
  then have d: "drivers g1 = drivers g"
    using IsInitialized_fields(1) [of g] by simp
  let ?P = "\<lambda>i pt. measurement pt = ''CarTelemetryData'' \<and>
              expanded (carTelemetryData p ! i) (point_fields pt)"
  have "\<exists>pt. telemetry_body g1 p t (0 + j) (drivers g ! j) = Inr pt \<and> ?P (0 + j) pt"
    if j: "j < length (drivers g)" for j
  proof -
    from j assms(2) have jl: "j < length (carTelemetryData p)" by simp
    with assms(3) have "telemetry_car_ok (carTelemetryData p ! j)"
      by (simp add: list_all_length)
    then obtain fs where fs: "telemetry_fields (carTelemetryData p ! j) = Inr fs"
        "expanded (carTelemetryData p ! j) fs"
      using telemetry_fields_ok unfolding telemetry_car_ok_def by blast
    from jl fs show ?thesis
      by (simp add: telemetry_body_def idx_def)
  qed
  from for_drivers_Inr [of "drivers g" "telemetry_body g1 p t" 0 ?P, OF this]
  obtain pts where pts: "for_drivers (telemetry_body g1 p t) 0 (drivers g) = Inr pts"
    "length pts = length (drivers g)" "\<forall>j < length (drivers g). ?P j (pts ! j)"
    by auto
  have "processCarTelemetry g p t = Inr (g1, pts)"
    by (simp add: processCarTelemetry_def r d pts(1))
  with pts(2,3) show ?thesis by (intro exI conjI)
qed

lemma telemetry_car_ok_ex: "telemetry_car_ok telemetry_car"
  by (simp add: telemetry_car_ok_def sized_telemetry_def has_array_keys_def telemetry_car_def)

theorem telemetry_wheel_arrays_expanded_witness:
  "snd (IsInitialized ready_game) \<and>
   length (drivers ready_game) \<le> length (carTelemetryData telemetry_ex) \<and>
   list_all telemetry_car_ok (carTelemetryData telemetry_ex) \<and>
   (\<exists>g' recs. processCarTelemetry ready_game telemetry_ex t0 = Inr (g', recs) \<and>
      length recs = 2 \<and>
      map_of (point_fields (recs ! 0)) ''tyresPressure_RL'' = Some (VFloat 1) \<and>
      map_of (point_fields (recs ! 0)) ''tyresPressure_RR'' = Some (VFloat 2) \<and>
      map_of (point_fields (recs ! 0)) ''tyresPressure_FL'' = Some (VFloat 3) \<and>
      map_of (point_fields (recs ! 0)) ''tyresPressure_FR'' = Some (VFloat 4) \<and>
      map_of (point_fields (recs ! 0)) ''tyresPressure'' = None)"
proof -
  have h1: "snd (IsInitialized ready_game)"
    by (simp add: IsInitialized_def ready_game_def)
  have h2: "length (drivers ready_game) \<le> length (carTelemetryData telemetry_ex)"
    by (simp add: ready_game_def telemetry_ex_def)
  have h3: "list_all telemetry_car_ok (carTelemetryData telemetry_ex)"
    by (simp add: telemetry_ex_def list_all_iff telemetry_car_ok_ex)
  from telemetry_wheel_arrays_expanded [OF h1 h2 h3, of t0]
  obtain g' recs where p: "processCarTelemetry ready_game telemetry_ex t0 = Inr (g', recs)"
    and l: "length recs = length (drivers ready_game)"
    and e: "\<forall>i < length (drivers ready_game).
              measurement (recs ! i) = ''CarTelemetryData'' \<and>
              expanded (carTelemetryData telemetry_ex ! i) (point_fields (recs ! i))"
    by blast
  from l have l2: "length recs = 2"
    by (simp add: ready_game_def)
  from e have "expanded (carTelemetryData telemetry_ex ! 0) (point_fields (recs ! 0))"
    by (simp add: ready_game_def)
  then have "wheels_of (point_fields (recs ! 0)) ''tyresPressure'' (tyresPressure telemetry_car)"
    by (simp add: expanded_def telemetry_ex_def)
  then have w: "map_of (point_fields (recs ! 0)) ''tyresPressure_RL'' = Some (VFloat 1)"
      "map_of (point_fields (recs ! 0)) ''tyresPressure_RR'' = Some (VFloat 2)"
      "map_of (point_fields (recs ! 0)) ''tyresPressure_FL'' = Some (VFloat 3)"
      "map_of (point_fields (recs ! 0)) ''tyresPressure_FR'' = Some (VFloat 4)"
      "map_of (point_fields (recs ! 0)) ''tyresPressure'' = None"
    by (simp_all add: wheels_of_def wheel_vals_def telemetry_car_def)
  have "\<exists>g' recs. processCarTelemetry ready_game telemetry_ex t0 = Inr (g', recs) \<and>
      length recs = 2 \<and>
      map_of (point_fields (recs ! 0)) ''tyresPressure_RL'' = Some (VFloat 1) \<and>
      map_of (point_fields (recs ! 0)) ''tyresPressure_RR'' = Some (VFloat 2) \<and>
      map_of (point_fields (recs ! 0)) ''tyresPressure_FL'' = Some (VFloat 3) \<and>
      map_of (point_fields (recs ! 0)) ''tyresPressure_FR'' = Some (VFloat 4) \<and>
      map_of (point_fields (recs ! 0)) ''tyresPressure'' = None"
    by (rule exI [of _ g'], rule exI [of _ recs]) (intro conjI p l2 w)
  with h1 h2 h3 show ?thesis by (intro conjI)
qed

section \<open>Array accesses stay in bounds\<close>

lemma in_bounds_Inr: "in_bounds (Inr x)"
  by (simp add: in_bounds_def)

lemma in_bounds_and_then:
  "in_bounds m \<Longrightarrow> (\<And>x. m = Inr x \<Longrightarrow> in_bounds (f x)) \<Longrightarrow> in_bounds (and_then m f)"
  by (cases m) (simp_all add: in_bounds_def)

lemma in_bounds_idx: "i < length xs \<Longrightarrow> in_bounds (idx xs i)"
  by (simp add: idx_def in_bounds_def)

lemma in_bounds_idx4: "length a = 4 \<Longrightarrow> in_bounds (idx4 a)"
  by (simp add: idx4_Inr in_bounds_def)

lemma in_bounds_delitem: "in_bounds (delitem k d)"
  by (simp add: delitem_def in_bounds_def)

lemma in_bounds_getitem: "in_bounds (getitem d k)"
  by (simp add: getitem_def in_bounds_def split: option.splits)

lemma in_bounds_decode: "in_bounds (decode b)"
  by (simp add: decode_def in_bounds_def)

lemma in_bounds_for_drivers:
  "(\<And>j. j < length ds \<Longrightarrow> in_bounds (body (i + j) (ds ! j))) \<Longrightarrow>
   in_bounds (for_drivers body i ds)"
proof (induction ds arbitrary: i)
  case Nil
  then show ?case by (simp add: in_bounds_Inr)
next
  case (Cons d ds)
  from Cons.prems [of 0] have h: "in_bounds (body i d)" by simp
  have t: "in_bounds (for_drivers body (Suc i) ds)"
    using Cons.prems [of "Suc j" for j] by (intro Cons.IH) simp
  show ?case
    by (simp del: and_then_simps) (intro in_bounds_and_then h t in_bounds_Inr)
qed

lemma gated_in_bounds:
  assumes "\<And>g1. IsInitialized g = (g1, True) \<Longrightarrow> in_bounds (m g1)"
  shows "in_bounds (case IsInitialized g of (g1, ready) \<Rightarrow> if \<not> ready then Inr (g1, []) else m g1)"
  using assms by (cases "IsInitialized g") (auto simp: in_bounds_Inr)

lemma ready_drivers: "IsInitialized g = (g1, r) \<Longrightarrow> drivers g1 = drivers g"
  using IsInitialized_fields(1) [of g] by simp

lemma in_bounds_processMotion:
  assumes "sized (Motion p)" "length (drivers g) \<le> 20"
  shows "in_bounds (processMotion g p t)"
  unfolding processMotion_def
proof (rule gated_in_bounds)
  fix g1 assume r: "IsInitialized g = (g1, True)"
  from assms have len: "length (drivers g1) \<le> length (carMotionData p)"
    by (simp add: ready_drivers [OF r])
  have fd: "in_bounds (for_drivers (motion_body g1 p t) 0 (drivers g1))"
  proof (rule in_bounds_for_drivers)
    fix j assume "j < length (drivers g1)"
    with len show "in_bounds (motion_body g1 p t (0 + j) (drivers g1 ! j))"
      unfolding motion_body_def by (intro in_bounds_and_then in_bounds_idx in_bounds_Inr) simp
  qed
  from assms(1) have mf: "in_bounds (my_motion_fields p)"
    unfolding my_motion_fields_def Let_def
    by (intro in_bounds_and_then in_bounds_idx4 in_bounds_Inr) simp_all
  show "in_bounds (and_then (for_drivers (motion_body g1 p t) 0 (drivers g1)) (\<lambda>json.
             and_then (my_motion_fields p) (\<lambda>fs.
               Inr (g1, json @ [\<lparr>measurement = ''MyMotionData'', tags = base_tags g1 (header p),
                                 time = strftime_iso t, point_fields = fs\<rparr>]))))"
    by (intro in_bounds_and_then fd mf in_bounds_Inr)
qed

lemma in_bounds_collect:
  "in_bounds m \<Longrightarrow> in_bounds (and_then m (\<lambda>json. Inr (g1, json)))"
  by (intro in_bounds_and_then in_bounds_Inr)

lemma in_bounds_processLap:
  assumes "sized (LapData p)" "length (drivers g) \<le> 20"
  shows "in_bounds (processLap g p t)"
  unfolding processLap_def
proof (rule gated_in_bounds)
  fix g1 assume r: "IsInitialized g = (g1, True)"
  from assms have len: "length (drivers g1) \<le> length (lapData p)"
    by (simp add: ready_drivers [OF r])
  have "in_bounds (for_drivers (lap_body g1 p t) 0 (drivers g1))"
  proof (rule in_bounds_for_drivers)
    fix j assume "j < length (drivers g1)"
    with len show "in_bounds (lap_body g1 p t (0 + j) (drivers g1 ! j))"
      unfolding lap_body_def by (intro in_bounds_and_then in_bounds_idx in_bounds_Inr) simp
  qed
  then show "in_bounds (and_then (for_drivers (lap_body g1 p t) 0 (drivers g1)) (\<lambda>json. Inr (g1, json)))"
    by (rule in_bounds_collect)
qed

lemma in_bounds_processCarSetup:
  assumes "sized (CarSetups p)" "length (drivers g) \<le> 20"
  shows "in_bounds (processCarSetup g p t)"
  unfolding processCarSetup_def
proof (rule gated_in_bounds)
  fix g1 assume r: "IsInitialized g = (g1, True)"
  from assms have len: "length (drivers g1) \<le> length (carSetups p)"
    by (simp add: ready_drivers [OF r])
  have "in_bounds (for_drivers (setup_body g1 p t) 0 (drivers g1))"
  proof (rule in_bounds_for_drivers)
    fix j assume "j < length (drivers g1)"
    with len show "in_bounds (setup_body g1 p t (0 + j) (drivers g1 ! j))"
      unfolding setup_body_def by (intro in_bounds_and_then in_bounds_idx in_bounds_Inr) simp
  qed
  then show "in_bounds (and_then (for_drivers (setup_body g1 p t) 0 (drivers g1)) (\<lambda>json. Inr (g1, json)))"
    by (rule in_bounds_collect)
qed

lemma in_bounds_telemetry_fields: "sized_telemetry c \<Longrightarrow> in_bounds (telemetry_fields c)"
  unfolding telemetry_fields_def sized_telemetry_def
  by (intro in_bounds_and_then in_bounds_idx4 in_bounds_delitem) simp_all

lemma in_bounds_processCarTelemetry:
  assumes "sized (CarTelemetry p)" "length (drivers g) \<le> 20"
  shows "in_bounds (processCarTelemetry g p t)"
  unfolding processCarTelemetry_def
proof (rule gated_in_bounds)
  fix g1 assume r: "IsInitialized g = (g1, True)"
  from assms have len: "length (drivers g1) \<le> length (carTelemetryData p)"
    and all: "list_all sized_telemetry (carTelemetryData p)"
    by (simp_all add: ready_drivers [OF r])
  have "in_bounds (for_drivers (telemetry_body g1 p t) 0 (drivers g1))"
  proof (rule in_bounds_for_drivers)
    fix j assume "j < length (drivers g1)"
    with len have j: "j < length (carTelemetryData p)" by simp
    with all have s: "sized_telemetry (carTelemetryData p ! j)"
      by (simp add: list_all_length)
    from j have i: "idx (carTelemetryData p) (0 + j) = Inr (carTelemetryData p ! j)"
      by (simp add: idx_def)
    show "in_bounds (telemetry_body g1 p t (0 + j) (drivers g1 ! j))"
      unfolding telemetry_body_def i and_then_simps
      by (intro in_bounds_and_then in_bounds_telemetry_fields s in_bounds_Inr)
  qed
  then show "in_bounds (and_then (for_drivers (telemetry_body g1 p t) 0 (drivers g1)) (\<lambda>json. Inr (g1, json)))"
    by (rule in_bounds_collect)
qed

lemma in_bounds_sub4:
  assumes "wheel_array d k"
  shows "in_bounds (sub4 d k)"
proof (cases "map_of d k")
  case None
  then show ?thesis by (simp add: sub4_def getitem_def in_bounds_def)
next
  case (Some a)
  show ?thesis
  proof (cases a)
    case (VArr xs)
    with Some assms have "length xs = 4" by (simp add: wheel_array_def)
    with Some VArr show ?thesis
      by (simp add: sub4_def getitem_def subscript_def idx_def in_bounds_def)
  qed (use Some in \<open>simp_all add: sub4_def getitem_def subscript_def in_bounds_def\<close>)
qed

lemma map_of_set_wheels_other:
  "k \<notin> set (wheel_keys q) \<Longrightarrow> map_of (set_wheels q w d) k = map_of d k"
  by (cases w) (simp add: map_of_set_wheels wheel_keys_def)

lemma in_bounds_status_fields:
  assumes "wheel_array (fields_dict c) ''tyresWear''" "wheel_array (fields_dict c) ''tyresDamage''"
  shows "in_bounds (status_fields c)"
proof -
  have "wheel_array (set_wheels ''tyresWear'' w (fields_dict c)) ''tyresDamage''" for w
    using assms(2) by (simp add: wheel_array_def map_of_set_wheels_other wheel_keys_def)
  with assms(1) show ?thesis
    unfolding status_fields_def
    by (intro in_bounds_and_then in_bounds_sub4 in_bounds_delitem)
qed

lemma in_bounds_processCarStatus:
  assumes "sized (CarStatus p)" "length (drivers g) \<le> 20"
  shows "in_bounds (processCarStatus g p t)"
  unfolding processCarStatus_def
proof (rule gated_in_bounds)
  fix g1 assume r: "IsInitialized g = (g1, True)"
  from assms have len: "length (drivers g1) \<le> length (carStatusData p)"
    and all: "list_all (\<lambda>c. wheel_array (fields_dict c) ''tyresWear'' \<and>
                     wheel_array (fields_dict c) ''tyresDamage'') (carStatusData p)"
    by (simp_all add: ready_drivers [OF r])
  have "in_bounds (for_drivers (status_body g1 p t) 0 (drivers g1))"
  proof (rule in_bounds_for_drivers)
    fix j assume "j < length (drivers g1)"
    with len have j: "j < length (carStatusData p)" by simp
    with all have s: "wheel_array (fields_dict (carStatusData p ! j)) ''tyresWear''"
        "wheel_array (fields_dict (carStatusData p ! j)) ''tyresDamage''"
      by (simp_all add: list_all_length)
    from j have i: "idx (carStatusData p) (0 + j) = Inr (carStatusData p ! j)"
      by (simp add: idx_def)
    show "in_bounds (status_body g1 p t (0 + j) (drivers g1 ! j))"
      unfolding status_body_def i and_then_simps
      by (intro in_bounds_and_then in_bounds_status_fields s in_bounds_Inr)
  qed
  then show "in_bounds (and_then (for_drivers (status_body g1 p t) 0 (drivers g1)) (\<lambda>json. Inr (g1, json)))"
    by (rule in_bounds_collect)
qed

lemma in_bounds_processEvent: "in_bounds (processEvent g p t)"
  unfolding processEvent_def
proof (rule gated_in_bounds)
  fix g1
  have "in_bounds (event_fields (fields_dict p))"
    unfolding event_fields_def
    by (intro in_bounds_and_then in_bounds_getitem)
       (auto simp: in_bounds_def and_then_Inl decode_def delitem_def split: val.splits)
  then show "in_bounds (and_then (event_fields (fields_dict p)) (\<lambda>fs.
               Inr (g1, [\<lparr>measurement = ''EventData'', tags = base_tags g1 (header p),
                          time = strftime_iso t, point_fields = fs\<rparr>])))"
    by (intro in_bounds_and_then in_bounds_Inr)
qed

lemma in_bounds_processSession: "in_bounds (processSession tracks g p t)"
proof -
  have m: "in_bounds (mySessionId tracks g p t)"
    by (simp add: mySessionId_def in_bounds_def Let_def split: option.splits)
  have s: "in_bounds (session_points g1 p t)" for g1
    unfolding session_points_def Let_def
    by (cases "marshal_loop t 0 0 (marshalZones p) ([session_tags g1 (header p)], [])")
       (simp del: and_then_simps, intro in_bounds_and_then in_bounds_delitem in_bounds_Inr)
  show ?thesis
    unfolding processSession_def
  proof (rule in_bounds_and_then [OF m])
    fix x assume "mySessionId tracks g p t = Inr x"
    obtain g0 sid where x: "x = (g0, sid)" by (cases x)
    show "in_bounds (case x of (g0, sid) \<Rightarrow>
       case IsInitialized (g0\<lparr>sessionID := sid\<rparr>) of (g1, ready) \<Rightarrow>
          if \<not> ready then Inr (g1, [])
          else and_then (session_points g1 p t) (\<lambda>json. Inr (g1, json)))"
      unfolding x prod.case
      by (rule gated_in_bounds) (rule in_bounds_collect [OF s])
  qed
qed

lemma in_bounds_roster_loop:
  "i + n \<le> length ps \<Longrightarrow> in_bounds (roster_loop ps i n ds)"
proof (induction n arbitrary: i ds)
  case 0
  then show ?case by (simp add: in_bounds_Inr)
next
  case (Suc n)
  from Suc.prems have i: "i < length ps" and le: "Suc i + n \<le> length ps" by simp_all
  show ?case
    by (simp del: and_then_simps)
       (intro in_bounds_and_then in_bounds_idx i in_bounds_decode Suc.IH le)
qed

lemma in_bounds_participant_loop:
  "i + n \<le> length ps \<Longrightarrow> in_bounds (participant_loop t ps i n st)"
proof (induction n arbitrary: i st)
  case 0
  then show ?case by (simp add: in_bounds_Inr)
next
  case (Suc n)
  from Suc.prems have i: "i < length ps" and le: "Suc i + n \<le> length ps" by simp_all
  obtain ds h json where st: "st = (ds, h, json)" by (cases st)
  show ?case
    unfolding st
    by (simp del: and_then_simps)
       (intro in_bounds_and_then in_bounds_idx i in_bounds_decode Suc.IH le)
qed

lemma roster_loop_length:
  "roster_loop ps i n ds = Inr ds' \<Longrightarrow> length ds' = length ds + n"
proof (induction n arbitrary: i ds)
  case 0
  then show ?case by simp
next
  case (Suc n)
  from Suc.prems obtain part driver where
    "roster_loop ps (Suc i) n (ds @ [driver]) = Inr ds'"
    by (auto simp: and_then_Inr)
  from Suc.IH [OF this] show ?case by simp
qed

lemma participant_loop_length:
  "participant_loop t ps i n (ds, h, json) = Inr (ds', h', json') \<Longrightarrow> length ds' = length ds + n"
proof (induction n arbitrary: i ds h json)
  case 0
  then show ?case by simp
next
  case (Suc n)
  from Suc.prems show ?case
    by (auto simp: and_then_Inr dest!: Suc.IH)
qed

lemma processParticipant_roster_length:
  "processParticipant g p t = Inr (g', js) \<Longrightarrow> length (drivers g') = numActiveCars p"
  by (auto simp: processParticipant_def and_then_Inr split: prod.splits if_splits
      dest: roster_loop_length participant_loop_length)

lemma in_bounds_processParticipant:
  assumes "sized (Participants p)" "active_cars_bounded (Participants p)"
  shows "in_bounds (processParticipant g p t)"
proof -
  from assms have le: "0 + numActiveCars p \<le> length (participants p)" by simp
  obtain g1 ready where r: "IsInitialized g = (g1, ready)" by (cases "IsInitialized g")
  show ?thesis
  proof (cases ready)
    case True
    have "in_bounds (and_then (delitem ''header'' (fields_dict p)) (\<lambda>_.
          and_then (participant_loop t (participants p) 0 (numActiveCars p)
                      ([], [base_tags g1 (header p)], [])) (\<lambda>(ds, h, json).
            Inr (g1\<lparr>drivers := ds\<rparr>, map (deref h) json))))"
      by (intro in_bounds_and_then in_bounds_delitem in_bounds_participant_loop le)
         (auto simp: in_bounds_Inr)
    with r True show ?thesis by (simp add: processParticipant_def)
  next
    case False
    have "in_bounds (and_then (roster_loop (participants p) 0 (numActiveCars p) []) (\<lambda>ds.
            Inr (g1\<lparr>drivers := ds\<rparr>, [])))"
      by (intro in_bounds_and_then in_bounds_roster_loop le in_bounds_Inr)
    with r False show ?thesis by (simp add: processParticipant_def)
  qed
qed

lemma in_bounds_process:
  assumes "sized pk" "active_cars_bounded pk" "length (drivers g) \<le> 20"
  shows "in_bounds (process tracks g (pk, t))"
  using assms
  by (cases pk)
     (simp_all add: process_def in_bounds_processMotion in_bounds_processSession
        in_bounds_processLap in_bounds_processEvent in_bounds_processParticipant
        in_bounds_processCarSetup in_bounds_processCarTelemetry in_bounds_processCarStatus)

lemma process_roster_bound:
  assumes "process tracks g (pk, t) = Inr (g', js)" "active_cars_bounded pk"
    "length (drivers g) \<le> 20"
  shows "length (drivers g') \<le> 20"
proof (cases "packet_kind pk = PARTICIPANTS")
  case False
  with process_state(1) [OF assms(1)] assms(3) show ?thesis by simp
next
  case True
  then obtain p where pk: "pk = Participants p" by (cases pk) simp_all
  with assms(1) have "processParticipant g p t = Inr (g', js)" by (simp add: process_def)
  from processParticipant_roster_length [OF this] assms(2) pk show ?thesis by simp
qed

lemma in_bounds_feed:
  "list_all (\<lambda>pt. sized (fst pt) \<and> active_cars_bounded (fst pt)) ps \<Longrightarrow>
   length (drivers g) \<le> 20 \<Longrightarrow> in_bounds (feed tracks g ps)"
proof (induction ps arbitrary: g)
  case Nil
  then show ?case by (simp add: in_bounds_Inr)
next
  case (Cons pt ps)
  obtain pk t where pt: "pt = (pk, t)" by (cases pt)
  from Cons.prems(1) pt have ok: "sized pk" "active_cars_bounded pk"
    and rest: "list_all (\<lambda>pt. sized (fst pt) \<and> active_cars_bounded (fst pt)) ps"
    by simp_all
  have step: "in_bounds (process tracks g (pk, t))"
    by (rule in_bounds_process [OF ok Cons.prems(2)])
  show ?case
    unfolding pt feed.simps
  proof (rule in_bounds_and_then [OF step])
    fix x assume x: "process tracks g (pk, t) = Inr x"
    obtain g' js where xs: "x = (g', js)" by (cases x)
    from process_roster_bound [OF x [unfolded xs] ok(2) Cons.prems(2)]
    have "length (drivers g') \<le> 20" .
    from Cons.IH [OF rest this] show "in_bounds (case x of (g', json) \<Rightarrow> feed tracks g' ps)"
      by (simp add: xs)
  qed
qed

text \<open>
  Claim C10. \<open>processParticipant\<close> reads \<open>participants[i]\<close> for every \<open>i\<close> below the
  packet's number of active cars and the per-driver methods read their per-car array at
  every roster position; an access past the end of an array is \<open>IndexError\<close> in the
  model. If every packet of a sequence has the arrays of the format (twenty car slots,
  four wheels) and every PARTICIPANTS packet has at most twenty active cars, then feeding
  the sequence to a fresh tracker never ends in \<open>IndexError\<close>: the roster never grows
  beyond twenty names, so every access is in bounds.
\<close>

theorem no_index_error_when_active_cars_bounded:
  assumes "list_all (\<lambda>pt. sized (fst pt) \<and> active_cars_bounded (fst pt)) ps"
  shows "feed tracks Game_init ps \<noteq> Inl IndexError"
proof -
  have "length (drivers Game_init) \<le> 20" by (simp add: Game_init_def)
  from in_bounds_feed [OF assms this] show ?thesis by (simp add: in_bounds_def)
qed

theorem no_index_error_when_active_cars_bounded_witness:
  "list_all (\<lambda>pt. sized (fst pt) \<and> active_cars_bounded (fst pt)) ps_ex \<and>
   feed tracks0 Game_init ps_ex \<noteq> Inl IndexError"
proof -
  have st: "list_all sized_telemetry (replicate 20 telemetry_car)"
    by (simp add: list_all_iff sized_telemetry_def telemetry_car_def)
  have h: "list_all (\<lambda>pt. sized (fst pt) \<and> active_cars_bounded (fst pt)) ps_ex"
    by (simp add: ps_ex_def participants_ex_def motion_ex_def telemetry_ex_def st)
  from no_index_error_when_active_cars_bounded [OF h, of tracks0] h
  show ?thesis by (intro conjI)
qed

section \<open>Session packets and their marshal zones\<close>

lemma setitem_twice: "setitem k v (setitem k v' d) = setitem k v d"
  by (simp add: setitem_def)

lemma marshal_loop_json:
  "snd (marshal_loop t a i zs (h, json)) = json @ map (zone_point t a) zs"
  by (induction zs arbitrary: i h json) (simp_all add: zone_point_def)

lemma marshal_loop_store:
  "a < length h \<Longrightarrow> zs \<noteq> [] \<Longrightarrow>
   fst (marshal_loop t a i zs (h, json)) =
     h[a := setitem ''MarshalZoneId'' (zone_label (i + length zs - 1)) (h ! a)]"
proof (induction zs arbitrary: i h json)
  case Nil
  then show ?case by simp
next
  case (Cons z zs)
  show ?case
  proof (cases "zs = []")
    case True
    then show ?thesis by (simp add: zone_label_def)
  next
    case False
    let ?h = "h[a := setitem ''MarshalZoneId'' (VStr (''MarshalZone'' @ str_nat i)) (h ! a)]"
    from Cons.prems(1) have "a < length ?h" by simp
    from Cons.IH [OF this False, of "Suc i"] Cons.prems(1)
    show ?thesis by (simp add: setitem_twice)
  qed
qed

lemma session_points_shape:
  assumes "''marshalZones'' \<in> fst ` set (fields_dict p)" "''header'' \<in> fst ` set (fields_dict p)"
    and "marshalZones p \<noteq> []"
  shows "session_points g1 p t =
     Inr (map (\<lambda>mz. \<lparr>measurement = ''MarshalZones'',
                      tags = setitem ''MarshalZoneId'' (zone_label (length (marshalZones p) - 1))
                               (session_tags g1 (header p)),
                      time = strftime_iso t, point_fields = fields_dict mz\<rparr>) (marshalZones p)
          @ [\<lparr>measurement = ''SessionData'', tags = session_tags g1 (header p),
               time = strftime_iso t,
               point_fields = AList.delete ''header'' (AList.delete ''marshalZones'' (fields_dict p))\<rparr>])"
proof -
  let ?h0 = "[session_tags g1 (header p)]"
  let ?lab = "setitem ''MarshalZoneId'' (zone_label (length (marshalZones p) - 1))
                               (session_tags g1 (header p))"
  obtain h json where ml: "marshal_loop t 0 0 (marshalZones p) (?h0, []) = (h, json)"
    by (cases "marshal_loop t 0 0 (marshalZones p) (?h0, [])")
  from marshal_loop_json [of t 0 0 "marshalZones p" ?h0 "[]"] ml
  have json: "json = map (zone_point t 0) (marshalZones p)" by simp
  from marshal_loop_store [of 0 ?h0 "marshalZones p" t 0 "[]"] assms(3) ml
  have h: "h = [?lab]" by simp
  have d1: "delitem ''marshalZones'' (fields_dict p) = Inr (AList.delete ''marshalZones'' (fields_dict p))"
    by (rule delitem_Inr [OF assms(1)])
  have d2: "delitem ''header'' (AList.delete ''marshalZones'' (fields_dict p)) =
      Inr (AList.delete ''header'' (AList.delete ''marshalZones'' (fields_dict p)))"
    by (rule delitem_Inr, rule present_delete [OF assms(2)]) simp
  show ?thesis
    unfolding session_points_def ml prod.case d1 d2 and_then_simps Let_def
    by (simp add: json h deref_def zone_point_def nth_append)
qed

lemma zone_label_20: "zone_label 20 = VStr ''MarshalZone20''"
  by (simp add: zone_label_def str_nat.simps digit_def)

lemma session_ex_zones: "length (marshalZones (session_ex uid)) = 21"
  by (simp add: session_ex_def)

text \<open>
  Claim C5 says that each marshal-zone point is tagged with its own zone index label.
  \<open>processSession\<close> creates the tag dictionary once, before the loop, writes the label
  of the current zone into it in every iteration and appends a reference to it, so all
  zone points hold the same dictionary, whose label is the last one written (lemma
  \<open>session_points_shape\<close>; the per-driver methods create their dictionary inside the
  loop). On a Ready tracker, a SESSION packet with the 21 zone entries of the format
  yields 22 points, and each of the 21 zone points carries the label \<open>MarshalZone20\<close>.
\<close>

theorem marshal_zone_points_share_last_label:
  "\<exists>g' recs. processSession tracks0 ready_game (session_ex 1) t0 = Inr (g', recs) \<and>
      length recs = 22 \<and>
      map (\<lambda>r. map_of (tags r) ''MarshalZoneId'') (take 21 recs) =
        replicate 21 (Some (VStr ''MarshalZone20''))"
proof -
  let ?p = "session_ex 1"
  let ?lab = "setitem ''MarshalZoneId'' (zone_label (length (marshalZones ?p) - 1))
                 (session_tags ready_game (header ?p))"
  let ?f = "\<lambda>mz. \<lparr>measurement = ''MarshalZones'', tags = ?lab,
                      time = strftime_iso t0, point_fields = fields_dict mz\<rparr>"
  let ?last = "\<lparr>measurement = ''SessionData'', tags = session_tags ready_game (header ?p),
               time = strftime_iso t0,
               point_fields = AList.delete ''header'' (AList.delete ''marshalZones'' (fields_dict ?p))\<rparr>"
  let ?recs = "map ?f (marshalZones ?p) @ [?last]"
  have k: "''marshalZones'' \<in> fst ` set (fields_dict ?p)" "''header'' \<in> fst ` set (fields_dict ?p)"
    by (simp_all add: session_ex_def)
  have z: "marshalZones ?p \<noteq> []"
    using session_ex_zones [of 1] by auto
  have sp: "session_points ready_game ?p t0 = Inr ?recs"
    by (rule session_points_shape [OF k z])
  have m: "mySessionId tracks0 ready_game ?p t0 = Inr (ready_game, sessionID ready_game)"
    by (simp add: mySessionId_def ready_game_def session_ex_def hdr_def)
  have g: "ready_game\<lparr>sessionID := sessionID ready_game\<rparr> = ready_game"
    by simp
  have i: "IsInitialized ready_game = (ready_game, True)"
    by (rule IsInitialized_ready) (simp add: ready_game_def)
  have res: "processSession tracks0 ready_game ?p t0 = Inr (ready_game, ?recs)"
    unfolding processSession_def m and_then_simps prod.case g i
    by (simp add: sp)
  have len: "length ?recs = 22"
    by (simp add: session_ex_zones)
  have "take 21 ?recs = map ?f (marshalZones ?p)"
    by (simp add: session_ex_zones)
  then have "map (\<lambda>r. map_of (tags r) ''MarshalZoneId'') (take 21 ?recs) =
      map (\<lambda>mz. Some (zone_label 20)) (marshalZones ?p)"
    by (simp add: map_of_setitem session_ex_zones o_def)
  also have "\<dots> = replicate 21 (Some (VStr ''MarshalZone20''))"
    by (simp add: map_replicate_const session_ex_zones zone_label_20)
  finally have labels: "map (\<lambda>r. map_of (tags r) ''MarshalZoneId'') (take 21 ?recs) =
      replicate 21 (Some (VStr ''MarshalZone20''))" .
  show ?thesis
    by (rule exI [of _ ready_game], rule exI [of _ ?recs]) (intro conjI res len labels)
qed

section \<open>Batches of a flush cycle\<close>

lemma unpack0_event:
  assumes "length code = 4"
  shows "unpack0 (event_datagram code) = Event (event_ex code)"
proof -
  have h: "header0 (event_datagram code) = hdr 3 1"
    by (simp add: event_datagram_def header0_datagram)
  have c: "take 4 (drop 23 (event_datagram code)) = code"
    using assms by (simp add: event_datagram_def datagram_def)
  show ?thesis
    by (simp add: unpack0_def Let_def h c hdr_def event_ex_def)
qed

lemma processEvent_ready:
  "utf8_ok (map of_char code) \<Longrightarrow>
   processEvent ready_game (event_ex code) t = Inr (ready_game, [event_point code t])"
  by (simp add: processEvent_def IsInitialized_def ready_game_def event_fields_def event_ex_def
      getitem_def decode_def delitem_def setitem_def base_tags_def sid_val_def hdr_def
      event_point_def)

lemma event_step:
  assumes "length code = 4" "utf8_ok (map of_char code)"
  shows "packet_step lib0 tracks0 \<lparr>game = ready_game, jsonMessages = jm, effects = es\<rparr>
           (t, event_datagram code) =
         Inr \<lparr>game = ready_game, jsonMessages = AList.update EVENT [event_point code t] jm,
              effects = es\<rparr>"
proof -
  have len: "length (event_datagram code) = 32"
    using assms(1) by (simp add: event_datagram_def length_datagram)
  have h: "header0 (event_datagram code) = hdr 3 1"
    by (simp add: event_datagram_def header0_datagram)
  show ?thesis
    by (simp add: packet_step_def lib0_def len h hdr_def table0_def Let_def dispatch_def
        unpack0_event [OF assms(1)] assign_def processEvent_ready [OF assms(2)])
qed

lemma utf8_codes: "utf8_ok (map of_char ''SSTA'')" "utf8_ok (map of_char ''SEND'')"
  by simp_all

lemma two_events_loop:
  "packets_loop lib0 tracks0 (loop_init ready_game) two_events = Inr after_second_event"
  by (simp add: two_events_def loop_init_def after_second_event_def event_step utf8_codes)

lemma two_events_flush:
  "process_incoming_packets lib0 tracks0 ready_game two_events =
     Inr (ready_game, [Write_points [event_point ''SEND'' t1], Printed_count 1, Recorded 2])"
  using two_events_loop
  by (simp add: process_incoming_packets_def loop_init_def after_second_event_def two_events_def)

lemma motion_flush:
  "process_incoming_packets lib0 tracks0 Game_init [(t0, motion_datagram)] =
     Inr (Game_init, [Write_points [], Printed_count 0, Recorded 1])"
  by (simp add: process_incoming_packets_def motion_step Game_init_def)

text \<open>
  Claim C1 says that the records of every decoded packet are appended to the batch of
  the packet's type, that no record is lost, and that only non-empty batches are written.
  The loop stores with \<^verbatim>\<open>jsonMessages[key] = ...\<close> and the write loop has no test for an
  empty list. Two EVENT datagrams in one drained list, on a Ready tracker: the first one
  yields a point, and the sink receives one batch holding only the point of the second.
  One MOTION datagram on a fresh tracker: the sink receives one empty batch.
\<close>

theorem earlier_records_replaced_and_empty_batch_written_counterexample:
  "unpack_udp_packet lib0 (event_datagram ''SSTA'') = Event (event_ex ''SSTA'') \<and>
   processEvent ready_game (event_ex ''SSTA'') t0 = Inr (ready_game, [event_point ''SSTA'' t0]) \<and>
   process_incoming_packets lib0 tracks0 ready_game
       [(t0, event_datagram ''SSTA''), (t1, event_datagram ''SEND'')] =
     Inr (ready_game, [Write_points [event_point ''SEND'' t1], Printed_count 1, Recorded 2]) \<and>
   process_incoming_packets lib0 tracks0 Game_init [(t0, motion_datagram)] =
     Inr (Game_init, [Write_points [], Printed_count 0, Recorded 1])"
  using two_events_flush motion_flush
  by (simp add: two_events_def lib0_def unpack0_event processEvent_ready)

lemma dispatch_replaces:
  assumes "K \<noteq> CAR_SETUPS" "packet_kind u = K"
  shows "dispatch tracks st (PacketID_value K) u ts =
     and_then (process tracks (game st) (u, ts)) (\<lambda>(g', json).
       Inr (st\<lparr>game := g', jsonMessages := AList.update K json (jsonMessages st)\<rparr>))"
  using assms by (cases u) (auto simp: dispatch_def process_def assign_def)

lemma assign_other_slot:
  "assign st K' r = Inr st' \<Longrightarrow> K \<noteq> K' \<Longrightarrow>
   map_of (jsonMessages st') K = map_of (jsonMessages st) K"
  by (auto simp: assign_def and_then_Inr update_conv')

lemma PacketID_value_inj: "PacketID_value a = PacketID_value b \<Longrightarrow> a = b"
  by (cases a; cases b) simp_all

lemma dispatch_other_slot:
  assumes "dispatch tracks st pid u ts = Inr st'" "pid \<noteq> PacketID_value K"
    "K \<noteq> CAR_STATUS"
  shows "map_of (jsonMessages st') K = map_of (jsonMessages st) K"
proof -
  have "(\<exists>K' r. K' \<noteq> K \<and> assign st K' r = Inr st') \<or> st' = st"
    using assms
    by (cases K)
       (auto simp: dispatch_def split: if_splits packet.splits)
  then show ?thesis
    using assign_other_slot [of st _ _ st' K] by auto
qed

lemma writes_append: "writes (a @ b) = writes a @ writes b"
  by (induction a rule: writes.induct) simp_all

lemma writes_batches: "writes (map (\<lambda>(k, v). Write_points v) jm) = map snd jm"
  by (induction jm) auto

lemma assign_tidy: "assign st K r = Inr st' \<Longrightarrow> tidy st \<Longrightarrow> tidy st'"
  by (auto simp: assign_def and_then_Inr tidy_def distinct_update)

lemma dispatch_tidy:
  assumes "dispatch tracks st pid u ts = Inr st'" "tidy st"
  shows "tidy st'"
proof -
  have "(\<exists>K' r. assign st K' r = Inr st') \<or> st' = st"
    using assms(1) by (auto simp: dispatch_def split: if_splits packet.splits)
  with assms(2) show ?thesis by (auto dest: assign_tidy)
qed

lemma packet_step_tidy:
  assumes "packet_step lib tracks st tp = Inr st'" "tidy st"
  shows "tidy st'"
proof -
  obtain timestamp packet where tp: "tp = (timestamp, packet)" by (cases tp)
  have drop: "tidy (st\<lparr>effects := effects st @ [e]\<rparr>)" if "writes [e] = []" for e
    using assms(2) that by (simp add: tidy_def writes_append)
  from assms(1) show ?thesis
    unfolding tp packet_step_def Let_def
    by (auto split: if_splits option.splits intro!: drop dest: dispatch_tidy [OF _ assms(2)])
qed

lemma packets_loop_tidy:
  "packets_loop lib tracks st ds = Inr st' \<Longrightarrow> tidy st \<Longrightarrow> tidy st'"
proof (induction ds arbitrary: st)
  case Nil
  then show ?case by simp
next
  case (Cons d ds)
  from Cons.prems(1) obtain st1 where s: "packet_step lib tracks st d = Inr st1"
    "packets_loop lib tracks st1 ds = Inr st'"
    by (auto simp: and_then_Inr)
  from Cons.IH [OF s(2) packet_step_tidy [OF s(1) Cons.prems(2)]] show ?case .
qed

section \<open>The driver tag of participants points\<close>

lemma participants_ex_points:
  "processParticipant ready_game (participants_ex 2) t1 =
     Inr (ready_game\<lparr>drivers := [''HAMILTON'', ''VETTEL'']\<rparr>,
          [\<lparr>measurement = ''ParticipantData'',
            tags = setitem ''driver'' (VStr ''VETTEL'') (base_tags ready_game (hdr 4 1)),
            time = strftime_iso t1,
            point_fields = [(''aiControlled'', VInt 1), (''name'', VStr ''HAMILTON'')]\<rparr>,
           \<lparr>measurement = ''ParticipantData'',
            tags = setitem ''driver'' (VStr ''VETTEL'') (base_tags ready_game (hdr 4 1)),
            time = strftime_iso t1,
            point_fields = [(''aiControlled'', VInt 1), (''name'', VStr ''VETTEL'')]\<rparr>])"
proof -
  have i: "IsInitialized ready_game = (ready_game, True)"
    by (rule IsInitialized_ready) (simp add: ready_game_def)
  have d: "delitem ''header'' (fields_dict (participants_ex 2)) =
      Inr (AList.delete ''header'' (fields_dict (participants_ex 2)))"
    by (rule delitem_Inr) (simp add: participants_ex_def)
  have dec: "decode ''HAMILTON'' = Inr ''HAMILTON''" "decode ''VETTEL'' = Inr ''VETTEL''"
    by (simp_all add: decode_def)
  have l: "participant_loop t1 (participants (participants_ex 2)) 0 (numActiveCars (participants_ex 2))
       ([], [base_tags ready_game (header (participants_ex 2))], []) =
     Inr ([''HAMILTON'', ''VETTEL''],
          [setitem ''driver'' (VStr ''VETTEL'') (base_tags ready_game (hdr 4 1))],
          [\<lparr>ref_measurement = ''ParticipantData'', tags_ref = 0, ref_time = strftime_iso t1,
            ref_fields = [(''aiControlled'', VInt 1), (''name'', VStr ''HAMILTON'')]\<rparr>,
           \<lparr>ref_measurement = ''ParticipantData'', tags_ref = 0, ref_time = strftime_iso t1,
            ref_fields = [(''aiControlled'', VInt 1), (''name'', VStr ''VETTEL'')]\<rparr>])"
    by (simp add: participants_ex_def participant_ex_def numeral_2_eq_2 idx_def dec
        setitem_twice) (simp add: setitem_def)
  show ?thesis
    unfolding processParticipant_def i prod.case d and_then_simps l
    by (simp add: deref_def)
qed

text \<open>
  Claim C4 says that a PARTICIPANTS packet with \<open>k\<close> active cars yields \<open>k\<close> per-driver
  records, record \<open>i\<close> being the one of the driver in slot \<open>i\<close>. \<open>processParticipant\<close>
  creates the tag dictionary once, before the loop, writes the driver's name into it in
  every iteration and appends a reference to it (the per-driver methods create their
  dictionary inside the loop). On a Ready tracker and a packet with two active cars,
  HAMILTON in slot 0 and VETTEL in slot 1, the call returns two points and a roster of
  the two names in slot order, the field sets carry the two names in slot order, and both
  points carry the driver tag \<open>VETTEL\<close>.
\<close>

theorem participant_points_share_last_driver_tag:
  "\<exists>g' recs. processParticipant ready_game (participants_ex 2) t1 = Inr (g', recs) \<and>
      length recs = 2 \<and>
      drivers g' = [''HAMILTON'', ''VETTEL''] \<and>
      map (\<lambda>r. map_of (point_fields r) ''name'') recs =
        [Some (VStr ''HAMILTON''), Some (VStr ''VETTEL'')] \<and>
      map (\<lambda>r. map_of (tags r) ''driver'') recs =
        [Some (VStr ''VETTEL''), Some (VStr ''VETTEL'')]"
  unfolding participants_ex_points
  by (intro exI conjI, rule refl) (simp_all add: map_of_setitem)

section \<open>A flush cycle against its description\<close>

lemma dispatch_setups:
  "dispatch tracks st (PacketID_value CAR_SETUPS) (CarSetups p) ts =
     and_then (process tracks (game st) (CarSetups p, ts)) (\<lambda>(g', json).
       Inr (st\<lparr>game := g', jsonMessages := AList.update CAR_STATUS json (jsonMessages st)\<rparr>))"
  by (auto simp: dispatch_def process_def assign_def)

lemma packet_step_rejected:
  "decoded lib tp = None \<Longrightarrow>
   \<exists>st'. packet_step lib tracks st tp = Inr st' \<and> core st' = core st"
  by (cases tp) (auto simp: decoded_def packet_step_def Let_def core_def split: if_splits option.splits)

lemma packet_step_decoded:
  "decoded lib tp = Some (u, ts) \<Longrightarrow>
   packet_step lib tracks st tp = dispatch tracks st (packetId (from_buffer_copy lib (snd tp))) u ts"
  by (cases tp) (auto simp: decoded_def packet_step_def Let_def split: if_splits option.splits)

lemma packet_step_agree:
  assumes "class_matches lib tp" "agree X st (g, b)" "decoded lib tp = Some (u, ts)"
    and "packet_kind u = CAR_SETUPS \<longrightarrow> CAR_SETUPS \<in> X \<and> CAR_STATUS \<in> X"
  shows "case process tracks g (u, ts) of
           Inl e \<Rightarrow> packet_step lib tracks st tp = Inl e
         | Inr (g', json) \<Rightarrow>
             (\<exists>st'. packet_step lib tracks st tp = Inr st' \<and> effects st' = effects st \<and>
                agree X st' (g', b(packet_kind u \<mapsto> json)))"
proof -
  from assms(1,3) have pid: "packetId (from_buffer_copy lib (snd tp)) = PacketID_value (packet_kind u)"
    by (simp add: class_matches_def)
  from assms(2) have g: "game st = g" and b: "\<And>K. K \<notin> X \<Longrightarrow> map_of (jsonMessages st) K = b K"
    by (simp_all add: agree_def)
  show ?thesis
  proof (cases "packet_kind u = CAR_SETUPS")
    case False
    from dispatch_replaces [OF False refl, of tracks st ts] packet_step_decoded [OF assms(3), of tracks st] pid
    have "packet_step lib tracks st tp =
      and_then (process tracks g (u, ts)) (\<lambda>(g', json).
       Inr (st\<lparr>game := g', jsonMessages := AList.update (packet_kind u) json (jsonMessages st)\<rparr>))"
      by (simp add: g)
    then show ?thesis
      using b by (auto simp: agree_def update_conv' split: sum.splits)
  next
    case True
    then obtain p where u: "u = CarSetups p" by (cases u) simp_all
    from assms(4) True have x: "CAR_SETUPS \<in> X" "CAR_STATUS \<in> X" by simp_all
    from dispatch_setups [of tracks st p ts] packet_step_decoded [OF assms(3), of tracks st] pid
    have "packet_step lib tracks st tp =
      and_then (process tracks g (u, ts)) (\<lambda>(g', json).
       Inr (st\<lparr>game := g', jsonMessages := AList.update CAR_STATUS json (jsonMessages st)\<rparr>))"
      by (simp add: g u)
    then show ?thesis
      using b x True by (auto simp: agree_def update_conv' split: sum.splits)
  qed
qed

lemma agree_core: "core st' = core st \<Longrightarrow> agree X st gb \<Longrightarrow> agree X st' gb"
  by (simp add: agree_def core_def)

lemma packets_loop_agree:
  assumes "list_all (class_matches lib) ds" "agree X st (g, b)"
    and "CAR_SETUPS \<in> kinds (List.map_filter (decoded lib) ds) \<longrightarrow> CAR_SETUPS \<in> X \<and> CAR_STATUS \<in> X"
  shows "case replace_batches tracks (g, b) (List.map_filter (decoded lib) ds) of
           Inl e \<Rightarrow> packets_loop lib tracks st ds = Inl e
         | Inr gb' \<Rightarrow> (\<exists>st'. packets_loop lib tracks st ds = Inr st' \<and> agree X st' gb')"
  using assms
proof (induction ds arbitrary: st g b)
  case Nil
  then show ?case by (simp add: map_filter_simps)
next
  case (Cons tp ds)
  from Cons.prems(1) have cm: "class_matches lib tp" and rest: "list_all (class_matches lib) ds"
    by simp_all
  show ?case
  proof (cases "decoded lib tp")
    case None
    from packet_step_rejected [OF None, of tracks st]
    obtain st1 where s: "packet_step lib tracks st tp = Inr st1" "core st1 = core st" by blast
    from agree_core [OF s(2) Cons.prems(2)] have a: "agree X st1 (g, b)" .
    from Cons.prems(3) None
    have k: "CAR_SETUPS \<in> kinds (List.map_filter (decoded lib) ds) \<longrightarrow> CAR_SETUPS \<in> X \<and> CAR_STATUS \<in> X"
      by (simp add: map_filter_simps)
    have e: "packets_loop lib tracks st (tp # ds) = packets_loop lib tracks st1 ds"
      by (simp add: s(1))
    have f: "List.map_filter (decoded lib) (tp # ds) = List.map_filter (decoded lib) ds"
      by (simp add: map_filter_simps None)
    from Cons.IH [OF rest a k] show ?thesis
      unfolding e f .
  next
    case (Some pt)
    obtain u ts where pt: "pt = (u, ts)" by (cases pt)
    from Cons.prems(3) Some pt
    have ku: "packet_kind u = CAR_SETUPS \<longrightarrow> CAR_SETUPS \<in> X \<and> CAR_STATUS \<in> X"
      and k: "CAR_SETUPS \<in> kinds (List.map_filter (decoded lib) ds) \<longrightarrow> CAR_SETUPS \<in> X \<and> CAR_STATUS \<in> X"
      by (auto simp: map_filter_simps kinds_def)
    note step = packet_step_agree [OF cm Cons.prems(2) Some [unfolded pt] ku, of tracks]
    show ?thesis
    proof (cases "process tracks g (u, ts)")
      case (Inl e)
      with step have e1: "packets_loop lib tracks st (tp # ds) = Inl e"
        by simp
      have f: "replace_batches tracks (g, b) (List.map_filter (decoded lib) (tp # ds)) = Inl e"
        by (simp add: map_filter_simps Some pt Inl)
      show ?thesis
        unfolding f using e1 by simp
    next
      case (Inr r)
      obtain g' json where r: "r = (g', json)" by (cases r)
      from step Inr r obtain st1 where s: "packet_step lib tracks st tp = Inr st1"
        "agree X st1 (g', b(packet_kind u \<mapsto> json))"
        by auto
      have e: "packets_loop lib tracks st (tp # ds) = packets_loop lib tracks st1 ds"
        by (simp add: s(1))
      have f: "replace_batches tracks (g, b) (List.map_filter (decoded lib) (tp # ds)) =
          replace_batches tracks (g', b(packet_kind u \<mapsto> json)) (List.map_filter (decoded lib) ds)"
        by (simp add: map_filter_simps Some pt Inr r)
      from Cons.IH [OF rest s(2) k] show ?thesis
        unfolding e f .
    qed
  qed
qed

text \<open>
  Claim C1, amended. Let the decoder hand back, for every datagram it accepts, the packet
  class that the header's packet id names. Then (first conjunct) the loop body, on an
  accepted datagram of any type but CAR_SETUPS, calls the tracker method of that type on
  the current tracker and stores the returned records as the batch of that type, in
  place of what the batch held. And (second conjunct) the whole flush agrees with
  \<open>replace_batches\<close> run over the accepted datagrams in arrival order: it raises the same
  exception, or ends with the same tracker, and the sink receives one write per stored
  batch, empty or not, where the batch of each type is the one \<open>replace_batches\<close> holds,
  that is the records of the last packet of the type. The batches of CAR_SETUPS and
  CAR_STATUS are compared only for a drained list without CAR_SETUPS packets.
\<close>

theorem flush_replaces_batches_and_writes_all:
  assumes "list_all (class_matches lib) ds"
  shows "(\<forall>tp u ts st0. class_matches lib tp \<longrightarrow> decoded lib tp = Some (u, ts) \<longrightarrow>
            packet_kind u \<noteq> CAR_SETUPS \<longrightarrow>
            packet_step lib tracks st0 tp =
              and_then (process tracks (game st0) (u, ts)) (\<lambda>(g', json).
                Inr (st0\<lparr>game := g',
                         jsonMessages := AList.update (packet_kind u) json (jsonMessages st0)\<rparr>))) \<and>
         (case replace_batches tracks (g, Map.empty) (List.map_filter (decoded lib) ds) of
            Inl e \<Rightarrow> process_incoming_packets lib tracks g ds = Inl e
          | Inr (g', b) \<Rightarrow>
              (\<exists>out jm. process_incoming_packets lib tracks g ds = Inr (g', out) \<and>
                 writes out = map snd jm \<and> distinct (map fst jm) \<and>
                 (\<forall>K. (K = CAR_SETUPS \<or> K = CAR_STATUS \<longrightarrow>
                        CAR_SETUPS \<notin> kinds (List.map_filter (decoded lib) ds)) \<longrightarrow>
                      map_of jm K = b K)))"
proof -
  let ?dl = "List.map_filter (decoded lib) ds"
  let ?X = "if CAR_SETUPS \<in> kinds ?dl then {CAR_SETUPS, CAR_STATUS} else {}"
  have step: "\<forall>tp u ts st0. class_matches lib tp \<longrightarrow> decoded lib tp = Some (u, ts) \<longrightarrow>
            packet_kind u \<noteq> CAR_SETUPS \<longrightarrow>
            packet_step lib tracks st0 tp =
              and_then (process tracks (game st0) (u, ts)) (\<lambda>(g', json).
                Inr (st0\<lparr>game := g',
                         jsonMessages := AList.update (packet_kind u) json (jsonMessages st0)\<rparr>))"
  proof (intro allI impI)
    fix tp u ts st0
    assume cm: "class_matches lib tp" and d: "decoded lib tp = Some (u, ts)"
      and k: "packet_kind u \<noteq> CAR_SETUPS"
    from cm d have "packetId (from_buffer_copy lib (snd tp)) = PacketID_value (packet_kind u)"
      by (simp add: class_matches_def)
    with packet_step_decoded [OF d, of tracks st0] dispatch_replaces [OF k refl, of tracks st0 ts]
    show "packet_step lib tracks st0 tp =
              and_then (process tracks (game st0) (u, ts)) (\<lambda>(g', json).
                Inr (st0\<lparr>game := g',
                         jsonMessages := AList.update (packet_kind u) json (jsonMessages st0)\<rparr>))"
      by simp
  qed
  have a0: "agree ?X (loop_init g) (g, Map.empty)"
    by (simp add: agree_def loop_init_def)
  have x: "CAR_SETUPS \<in> kinds ?dl \<longrightarrow> CAR_SETUPS \<in> ?X \<and> CAR_STATUS \<in> ?X"
    by simp
  note loop = packets_loop_agree [OF assms a0 x, of tracks]
  have flush: "case replace_batches tracks (g, Map.empty) ?dl of
            Inl e \<Rightarrow> process_incoming_packets lib tracks g ds = Inl e
          | Inr (g', b) \<Rightarrow>
              (\<exists>out jm. process_incoming_packets lib tracks g ds = Inr (g', out) \<and>
                 writes out = map snd jm \<and> distinct (map fst jm) \<and>
                 (\<forall>K. (K = CAR_SETUPS \<or> K = CAR_STATUS \<longrightarrow> CAR_SETUPS \<notin> kinds ?dl) \<longrightarrow>
                      map_of jm K = b K))"
  proof (cases "replace_batches tracks (g, Map.empty) ?dl")
    case (Inl e)
    with loop have "packets_loop lib tracks (loop_init g) ds = Inl e" by simp
    then have "process_incoming_packets lib tracks g ds = Inl e"
      by (simp add: process_incoming_packets_def loop_init_def)
    with Inl show ?thesis by simp
  next
    case (Inr gb)
    obtain g' b where gb: "gb = (g', b)" by (cases gb)
    from loop Inr gb obtain st where st: "packets_loop lib tracks (loop_init g) ds = Inr st"
      "agree ?X st (g', b)"
      by auto
    have "tidy (loop_init g)" by (simp add: tidy_def loop_init_def)
    from packets_loop_tidy [OF st(1) this]
    have t: "writes (effects st) = []" "distinct (map fst (jsonMessages st))"
      by (simp_all add: tidy_def)
    let ?out = "effects st @ map (\<lambda>(k, v). Write_points v) (jsonMessages st)
                   @ [Printed_count (sum_list (map (\<lambda>(k, v). length v) (jsonMessages st))),
                      Recorded (length ds)]"
    from st have p: "process_incoming_packets lib tracks g ds = Inr (g', ?out)"
      by (simp add: process_incoming_packets_def loop_init_def agree_def)
    have w: "writes ?out = map snd (jsonMessages st)"
      by (simp add: writes_append writes_batches t(1))
    have m: "\<forall>K. (K = CAR_SETUPS \<or> K = CAR_STATUS \<longrightarrow> CAR_SETUPS \<notin> kinds ?dl) \<longrightarrow>
                      map_of (jsonMessages st) K = b K"
      using st(2) by (auto simp: agree_def split: if_splits)
    have "\<exists>out jm. process_incoming_packets lib tracks g ds = Inr (g', out) \<and>
                 writes out = map snd jm \<and> distinct (map fst jm) \<and>
                 (\<forall>K. (K = CAR_SETUPS \<or> K = CAR_STATUS \<longrightarrow> CAR_SETUPS \<notin> kinds ?dl) \<longrightarrow>
                      map_of jm K = b K)"
      by (rule exI [of _ ?out], rule exI [of _ "jsonMessages st"]) (intro conjI p w t(2) m)
    with Inr gb show ?thesis by simp
  qed
  from step flush show ?thesis by (rule conjI)
qed

lemma decoded_event:
  assumes "length code = 4"
  shows "decoded lib0 (t, event_datagram code) = Some (Event (event_ex code), t)"
proof -
  have len: "length (event_datagram code) = 32"
    using assms by (simp add: event_datagram_def length_datagram)
  have h: "header0 (event_datagram code) = hdr 3 1"
    by (simp add: event_datagram_def header0_datagram)
  show ?thesis
    by (simp add: decoded_def lib0_def len h hdr_def table0_def Let_def unpack0_event [OF assms])
qed

lemma class_matches_event:
  assumes "length code = 4"
  shows "class_matches lib0 (t, event_datagram code)"
proof -
  have h: "header0 (event_datagram code) = hdr 3 1"
    by (simp add: event_datagram_def header0_datagram)
  show ?thesis
    by (simp add: class_matches_def decoded_event [OF assms]) (simp add: lib0_def h hdr_def)
qed

lemma two_events_decoded: "List.map_filter (decoded lib0) two_events = decoded_events"
  by (simp add: two_events_def map_filter_simps decoded_event decoded_events_def)

lemma two_events_batches:
  "replace_batches tracks0 (ready_game, Map.empty) decoded_events =
     Inr (ready_game, [EVENT \<mapsto> [event_point ''SEND'' t1]])"
  by (simp add: decoded_events_def process_def processEvent_ready utf8_codes)

theorem flush_replaces_batches_and_writes_all_witness:
  "list_all (class_matches lib0) two_events \<and>
   List.map_filter (decoded lib0) two_events = decoded_events \<and>
   replace_batches tracks0 (ready_game, Map.empty) decoded_events =
     Inr (ready_game, [EVENT \<mapsto> [event_point ''SEND'' t1]]) \<and>
   (\<exists>out jm. process_incoming_packets lib0 tracks0 ready_game two_events = Inr (ready_game, out) \<and>
      writes out = map snd jm \<and> distinct (map fst jm) \<and>
      map_of jm EVENT = Some [event_point ''SEND'' t1] \<and> map_of jm MOTION = None)"
proof -
  have h: "list_all (class_matches lib0) two_events"
    by (simp add: two_events_def class_matches_event)
  have nk: "CAR_SETUPS \<notin> kinds decoded_events"
    by (simp add: kinds_def decoded_events_def)
  from flush_replaces_batches_and_writes_all [OF h, of tracks0 ready_game, THEN conjunct2]
  obtain out jm where o: "process_incoming_packets lib0 tracks0 ready_game two_events = Inr (ready_game, out)"
      "writes out = map snd jm" "distinct (map fst jm)"
    and m: "\<forall>K. (K = CAR_SETUPS \<or> K = CAR_STATUS \<longrightarrow> CAR_SETUPS \<notin> kinds decoded_events) \<longrightarrow>
                      map_of jm K = [EVENT \<mapsto> [event_point ''SEND'' t1]] K"
    unfolding two_events_decoded two_events_batches by auto
  from m nk have e: "map_of jm EVENT = Some [event_point ''SEND'' t1]" "map_of jm MOTION = None"
    by simp_all
  have "\<exists>out jm. process_incoming_packets lib0 tracks0 ready_game two_events = Inr (ready_game, out) \<and>
      writes out = map snd jm \<and> distinct (map fst jm) \<and>
      map_of jm EVENT = Some [event_point ''SEND'' t1] \<and> map_of jm MOTION = None"
    by (rule exI [of _ out], rule exI [of _ jm]) (intro conjI o e)
  with h two_events_decoded two_events_batches show ?thesis by (intro conjI)
qed

end
